theory Spec2Isabelle
  imports Complex_Main
begin

section \<open>Numbers, errors and the Python list operations the sampler uses\<close>

text \<open>
  The sampler of \<^verbatim>\<open>custom_rngs.py\<close> draws from a list of numbers, each an \<^verbatim>\<open>int\<close> or a
  \<^verbatim>\<open>float\<close>. A finite float denotes a rational number; infinities and NaN are outside the
  model. Probabilities and the uniform draws of the random source are such numbers too.
  The development has two levels. In the first the sampler owns its two lists and its random
  source, and the arithmetic is that of the rationals: it decides which outcome a draw
  returns and which error each call raises. In the second (the sections on objects) the
  sampler keeps references into a store of list objects and random sources, as the class
  does, and every floating-point operation is rounded.
\<close>

type_synonym pyfloat = rat

datatype pynum = PInt int | PFloat pyfloat

fun num_val :: "pynum \<Rightarrow> rat" where
  "num_val (PInt i) = of_int i"
| "num_val (PFloat x) = x"

text \<open>Python's \<^verbatim>\<open>==\<close> on numbers compares the numeric values, whatever the subtypes.\<close>

definition py_eq :: "pynum \<Rightarrow> pynum \<Rightarrow> bool" where
  "py_eq a b = (num_val a = num_val b)"

text \<open>
  An exception is its class and its message. The names below stand for the exceptions that
  the class raises, each named by what its message says; \<open>IndexOutOfRangeError\<close> formats
  the subscript and \<^verbatim>\<open>n_prev - 1\<close> into its message as the f-string does.
  \<open>RaiseStrTypeError\<close> is what the statement \<^verbatim>\<open>raise "Passed value is not present ..."\<close>
  does: its operand is a string, not an exception, so Python raises a \<^verbatim>\<open>TypeError\<close> with
  the message below. The last three are the exceptions of the list operations themselves:
  a subscript out of range, \<^verbatim>\<open>pop\<close> out of range, and \<^verbatim>\<open>remove\<close> or \<^verbatim>\<open>index\<close> of an absent
  element (\<^verbatim>\<open>index\<close> puts the element into its message; the class calls it only after
  the membership test, so that case never arises, see \<open>py_index_None\<close>).
\<close>

datatype error = ValueError string | IndexError string | TypeError string

definition digit_char :: "nat \<Rightarrow> char" where
  "digit_char n = ''0123456789'' ! n"

fun str_nat :: "nat \<Rightarrow> string" where
  "str_nat n = (if n < 10 then [digit_char n] else str_nat (n div 10) @ [digit_char (n mod 10)])"

declare str_nat.simps [simp del]

definition str_int :: "int \<Rightarrow> string" where
  "str_int i = (if i < 0 then CHR ''-'' # str_nat (nat (- i)) else str_nat (nat i))"

abbreviation EmptyInputError :: error where
  "EmptyInputError \<equiv> ValueError ''At least one random number value is required''"

abbreviation DuplicateValueError :: error where
  "DuplicateValueError \<equiv> ValueError ''Values cannot repeat, ambiguous''"

abbreviation LengthMismatchError :: error where
  "LengthMismatchError \<equiv> ValueError ''Inputs not compatible''"

abbreviation InvalidProbabilityError :: error where
  "InvalidProbabilityError \<equiv> ValueError ''Invalid probability''"

abbreviation InvalidCountError :: error where
  "InvalidCountError \<equiv> ValueError ''Invalid k: must be a positive integer''"

abbreviation AmbiguousSelectorError :: error where
  "AmbiguousSelectorError \<equiv> ValueError ''To remove element, specify either its value or its index''"

definition IndexOutOfRangeError :: "int \<Rightarrow> nat \<Rightarrow> error" where
  "IndexOutOfRangeError index n_prev =
     IndexError (''Index '' @ str_int index @ '' is out of the valid range for length ''
                 @ str_int (int n_prev - 1) @ ''.'')"

abbreviation SingleElementError :: error where
  "SingleElementError \<equiv>
     ValueError ''Cannot remove only one number left. Instead, create a new RandomGen instance without it''"

abbreviation RaiseStrTypeError :: error where
  "RaiseStrTypeError \<equiv> TypeError ''exceptions must derive from BaseException''"

abbreviation ListIndexError :: error where
  "ListIndexError \<equiv> IndexError ''list index out of range''"

abbreviation PopIndexError :: error where
  "PopIndexError \<equiv> IndexError ''pop index out of range''"

abbreviation ListValueError :: error where
  "ListValueError \<equiv> ValueError ''list.remove(x): x not in list''"

text \<open>\<^verbatim>\<open>len(set(xs))\<close>: a set keeps one of any numbers that are equal under \<^verbatim>\<open>==\<close>.\<close>

definition py_len_set :: "pynum list \<Rightarrow> nat" where
  "py_len_set xs = length (remdups (map num_val xs))"

text \<open>\<^verbatim>\<open>item in xs\<close>, \<^verbatim>\<open>xs.index(v)\<close> and \<^verbatim>\<open>xs.remove(v)\<close> search from the left with \<^verbatim>\<open>==\<close>.\<close>

fun py_in :: "pynum \<Rightarrow> pynum list \<Rightarrow> bool" where
  "py_in v [] = False"
| "py_in v (x # xs) = (if py_eq x v then True else py_in v xs)"

fun py_index :: "pynum \<Rightarrow> pynum list \<Rightarrow> nat option" where
  "py_index v [] = None"
| "py_index v (x # xs) = (if py_eq x v then Some 0 else map_option Suc (py_index v xs))"

fun py_remove :: "pynum \<Rightarrow> pynum list \<Rightarrow> pynum list option" where
  "py_remove v [] = None"
| "py_remove v (x # xs) = (if py_eq x v then Some xs else map_option ((#) x) (py_remove v xs))"

text \<open>A subscript \<open>i\<close> of a list of length \<open>n\<close>: negative subscripts count from the end.\<close>

definition norm_index :: "int \<Rightarrow> nat \<Rightarrow> nat option" where
  "norm_index i n =
     (let j = (if i < 0 then i + int n else i)
      in if 0 \<le> j \<and> j < int n then Some (nat j) else None)"

definition delete_at :: "nat \<Rightarrow> 'a list \<Rightarrow> 'a list" where
  "delete_at j xs = take j xs @ drop (Suc j) xs"

definition py_getitem :: "'a list \<Rightarrow> int \<Rightarrow> 'a option" where
  "py_getitem xs i = map_option (\<lambda>j. xs ! j) (norm_index i (length xs))"

text \<open>\<^verbatim>\<open>xs.pop(i)\<close> gives the element and the list without it, or raises and leaves the list.\<close>

definition py_pop :: "'a list \<Rightarrow> int \<Rightarrow> ('a \<times> 'a list) option" where
  "py_pop xs i = map_option (\<lambda>j. (xs ! j, delete_at j xs)) (norm_index i (length xs))"

text \<open>\<^verbatim>\<open>sum(ps)\<close> adds from the left, starting at 0.\<close>

definition py_sum :: "rat list \<Rightarrow> rat" where
  "py_sum ps = foldl (+) 0 ps"

section \<open>The numpy functions\<close>

text \<open>
  \<^verbatim>\<open>cumsum\<close>, \<^verbatim>\<open>isclose\<close> and \<^verbatim>\<open>searchsorted\<close> are numpy's; the model follows their
  documentation. \<^verbatim>\<open>cumsum\<close> is the list of prefix sums. \<^verbatim>\<open>isclose(a, b)\<close> with the default
  tolerances is \<^verbatim>\<open>|a - b| <= atol + rtol * |b|\<close>, \<^verbatim>\<open>rtol = 1e-05\<close>, \<^verbatim>\<open>atol = 1e-08\<close>.
  \<^verbatim>\<open>searchsorted(a, v)\<close> with the default \<^verbatim>\<open>side='left'\<close> is a binary search: it halves
  the interval \<open>[lo, hi)\<close>, going right when \<^verbatim>\<open>a[mid] < v\<close>.
\<close>

fun cumsum_from :: "rat \<Rightarrow> rat list \<Rightarrow> rat list" where
  "cumsum_from acc [] = []"
| "cumsum_from acc (p # ps) = (acc + p) # cumsum_from (acc + p) ps"

definition cumsum :: "rat list \<Rightarrow> rat list" where
  "cumsum ps = cumsum_from 0 ps"

definition rtol :: rat where
  "rtol = 1 / 100000"

definition atol :: rat where
  "atol = 1 / 100000000"

definition isclose :: "rat \<Rightarrow> rat \<Rightarrow> bool" where
  "isclose a b = (\<bar>a - b\<bar> \<le> atol + rtol * \<bar>b\<bar>)"

function binsearch_left :: "rat list \<Rightarrow> rat \<Rightarrow> nat \<Rightarrow> nat \<Rightarrow> nat" where
  "binsearch_left a key lo hi =
     (if lo < hi
      then (let mid = lo + (hi - lo) div 2
            in if a ! mid < key then binsearch_left a key (mid + 1) hi
               else binsearch_left a key lo mid)
      else lo)"
  by pat_completeness auto

termination
  by (relation "measure (\<lambda>(a, key, lo, hi). hi - lo)") auto

declare binsearch_left.simps [simp del]

definition searchsorted :: "rat list \<Rightarrow> rat \<Rightarrow> nat" where
  "searchsorted a v = binsearch_left a v 0 (length a)"

section \<open>The random source\<close>

text \<open>
  The protocol \<^verbatim>\<open>Rng\<close>: an object with a method \<^verbatim>\<open>random()\<close>, which returns a float and
  advances the object's state, and a method \<^verbatim>\<open>seed(s)\<close>, which resets the state. The
  object is its two methods and its current state \<open>'g\<close>.
\<close>

record 'g rng_obj =
  rng_random :: "'g \<Rightarrow> rat \<times> 'g"
  rng_seed :: "int \<Rightarrow> 'g \<Rightarrow> 'g"
  rng_state :: 'g

definition call_random :: "'g rng_obj \<Rightarrow> rat \<times> 'g rng_obj" where
  "call_random r = (case rng_random r (rng_state r) of (x, g') \<Rightarrow> (x, r\<lparr>rng_state := g'\<rparr>))"

definition call_seed :: "int \<Rightarrow> 'g rng_obj \<Rightarrow> 'g rng_obj" where
  "call_seed s r = r\<lparr>rng_state := rng_seed r s (rng_state r)\<rparr>"

text \<open>
  Two generators for concrete runs. \<open>const_rng x\<close> returns \<open>x\<close> at every draw.
  \<open>lcg_rng g\<close> is a linear congruential generator modulo 65536 in state \<open>g\<close>; seeding
  replaces its state by the seed modulo 65536, and its draws lie in \<open>[0, 1)\<close>.
\<close>

definition const_rng :: "rat \<Rightarrow> unit rng_obj" where
  "const_rng x = \<lparr>rng_random = (\<lambda>g. (x, g)), rng_seed = (\<lambda>s g. g), rng_state = ()\<rparr>"

definition lcg_rng :: "nat \<Rightarrow> nat rng_obj" where
  "lcg_rng g =
     \<lparr>rng_random = (\<lambda>g. (of_nat g / 65536, (25173 * g + 13849) mod 65536)),
      rng_seed = (\<lambda>s g. nat (s mod 65536)),
      rng_state = g\<rparr>"

section \<open>The class \<^verbatim>\<open>RandomGen\<close>\<close>

record 'g RandomGen =
  rng :: "'g rng_obj"
  seed_attr :: "int option"
  nums :: "pynum list"
  probs :: "rat list"
  cdf :: "rat list"

text \<open>
  \<^verbatim>\<open>__init__(random_nums, probabilities, seed, rng)\<close>. \<open>fresh\<close> stands for the object
  \<^verbatim>\<open>random.Random()\<close> that the constructor creates when no \<^verbatim>\<open>rng\<close> is passed; its state
  comes from the operating system. \<^verbatim>\<open>if probabilities:\<close> is false for \<^verbatim>\<open>None\<close> and for an
  empty list.
\<close>

definition RandomGen_init ::
  "'g rng_obj \<Rightarrow> pynum list \<Rightarrow> rat list option \<Rightarrow> int option \<Rightarrow> 'g rng_obj option
     \<Rightarrow> error + 'g RandomGen" where
  "RandomGen_init fresh random_nums probabilities seed rng_arg =
     (let r0 = (case rng_arg of None \<Rightarrow> fresh | Some r \<Rightarrow> r);
          r1 = (case seed of None \<Rightarrow> r0 | Some s \<Rightarrow> call_seed s r0);
          n = length random_nums
      in if n = 0 then Inl EmptyInputError
         else if py_len_set random_nums < n then Inl DuplicateValueError
         else (case probabilities of
                 Some (p # ps) \<Rightarrow>
                   if length (p # ps) \<noteq> length random_nums then Inl LengthMismatchError
                   else if \<not> isclose (py_sum (p # ps)) 1
                           \<or> list_ex (\<lambda>q. q \<le> 0 \<or> q > 1) (p # ps)
                        then Inl InvalidProbabilityError
                   else Inr \<lparr>rng = r1, seed_attr = seed, nums = random_nums,
                             probs = p # ps, cdf = cumsum (p # ps)\<rparr>
               | _ \<Rightarrow>
                   Inr \<lparr>rng = r1, seed_attr = seed, nums = random_nums,
                        probs = replicate n (1 / of_nat n),
                        cdf = cumsum (replicate n (1 / of_nat n))\<rparr>))"

text \<open>\<^verbatim>\<open>__contains__\<close>\<close>

definition contains :: "'g RandomGen \<Rightarrow> pynum \<Rightarrow> bool" where
  "contains self item = py_in item (nums self)"

text \<open>
  \<^verbatim>\<open>__next__\<close>: one uniform draw, the binary search, the subscript. The draw has advanced
  the random source also when the subscript raises.
\<close>

definition RandomGen_next :: "'g RandomGen \<Rightarrow> (error + pynum) \<times> 'g RandomGen" where
  "RandomGen_next self =
     (case call_random (rng self) of (rnum, r') \<Rightarrow>
        (let self' = self\<lparr>rng := r'\<rparr>;
             idx = searchsorted (cdf self') rnum
         in (if idx < length (nums self') then Inr (nums self' ! idx) else Inl ListIndexError,
             self')))"

text \<open>
  \<^verbatim>\<open>next_k_nums(k)\<close> is a generator. The model runs it to its end: the outcomes it
  yields, the exception that ends it if there is one, and the sampler afterwards. The
  loop \<^verbatim>\<open>while k: k -= 1; yield next(self)\<close> runs only for an \<^verbatim>\<open>int\<close> \<open>k > 0\<close>, so it counts
  a natural number down to zero.
\<close>

fun next_k_loop :: "nat \<Rightarrow> 'g RandomGen \<Rightarrow> pynum list \<times> error option \<times> 'g RandomGen" where
  "next_k_loop 0 self = ([], None, self)"
| "next_k_loop (Suc k) self =
     (case RandomGen_next self of
        (Inl e, self') \<Rightarrow> ([], Some e, self')
      | (Inr v, self') \<Rightarrow>
          (case next_k_loop k self' of (vs, e, self'') \<Rightarrow> (v # vs, e, self'')))"

definition next_k_nums :: "pynum \<Rightarrow> 'g RandomGen \<Rightarrow> pynum list \<times> error option \<times> 'g RandomGen" where
  "next_k_nums k self =
     (case k of
        PInt i \<Rightarrow> if i > 0 then next_k_loop (nat i) self else ([], Some InvalidCountError, self)
      | PFloat x \<Rightarrow> ([], Some InvalidCountError, self))"

text \<open>
  \<^verbatim>\<open>remove(value=None, index=None)\<close>, statement by statement. Every result carries the
  sampler as it is when the method returns or raises. At this level the lists are the
  sampler's own, \<^verbatim>\<open>nums\<close> and \<^verbatim>\<open>probs\<close> are two separate lists that nothing else mutates, and
  the quotient and the sums are exact; \<open>remove_obj\<close> below is the method on shared list
  objects with rounded arithmetic.
\<close>

definition remove ::
  "pynum option \<Rightarrow> int option \<Rightarrow> 'g RandomGen \<Rightarrow> (error + unit) \<times> 'g RandomGen" where
  "remove value index self =
     (if \<not> ((value = None) \<noteq> (index = None)) then (Inl AmbiguousSelectorError, self)
      else
        (let n_prev = length (nums self) in
         case (case (value, index) of
                 (None, Some i) \<Rightarrow>
                   if \<not> (- int n_prev \<le> i \<and> i < int n_prev) then Inl (IndexOutOfRangeError i n_prev)
                   else (case py_getitem (nums self) i of
                           None \<Rightarrow> Inl ListIndexError
                         | Some v \<Rightarrow> Inr (v, i))
               | (Some v, None) \<Rightarrow>
                   if \<not> contains self v then Inl RaiseStrTypeError
                   else (case py_index v (nums self) of
                           None \<Rightarrow> Inl ListValueError
                         | Some j \<Rightarrow> Inr (v, int j))
               | _ \<Rightarrow> Inl AmbiguousSelectorError)
         of
           Inl e \<Rightarrow> (Inl e, self)
         | Inr (value', index') \<Rightarrow>
             if n_prev \<le> 1 then (Inl SingleElementError, self)
             else
               (case py_pop (probs self) index' of
                  None \<Rightarrow> (Inl PopIndexError, self)
                | Some (p, probs1) \<Rightarrow>
                    (let delta = p / of_nat (n_prev - 1);
                         self1 = self\<lparr>probs := probs1\<rparr>
                     in case py_remove value' (nums self1) of
                          None \<Rightarrow> (Inl ListValueError, self1)
                        | Some nums1 \<Rightarrow>
                            (let self2 = self1\<lparr>nums := nums1\<rparr>;
                                 self3 = self2\<lparr>probs := map (\<lambda>q. q + delta) (probs self2)\<rparr>;
                                 self4 = self3\<lparr>cdf := cumsum (probs self3)\<rparr>
                             in (Inr (), self4))))))"

text \<open>The setter of the property \<^verbatim>\<open>seed\<close>.\<close>

definition set_seed :: "int \<Rightarrow> 'g RandomGen \<Rightarrow> 'g RandomGen" where
  "set_seed new_seed self = self\<lparr>rng := call_seed new_seed (rng self), seed_attr := Some new_seed\<rparr>"

section \<open>Tables the sampler can hold\<close>

text \<open>
  \<open>table_inv\<close> collects what the constructor checks or builds and \<^verbatim>\<open>remove\<close> keeps:
  aligned lists, at least one outcome, outcomes pairwise different as numbers, positive
  probabilities whose sum is 1 up to \<^verbatim>\<open>isclose\<close>, and the prefix sums in \<^verbatim>\<open>cdf\<close>.
  \<open>reachable\<close> are the samplers a program can hold: built by the constructor, then
  changed by successful calls of \<^verbatim>\<open>remove\<close>, by draws and by reseeding.
\<close>

definition table_inv :: "'g RandomGen \<Rightarrow> bool" where
  "table_inv self =
     (length (probs self) = length (nums self) \<and> nums self \<noteq> []
      \<and> distinct (map num_val (nums self))
      \<and> list_all (\<lambda>p. 0 < p) (probs self)
      \<and> isclose (sum_list (probs self)) 1
      \<and> cdf self = cumsum (probs self))"

inductive reachable :: "'g RandomGen \<Rightarrow> bool" where
  constructed: "RandomGen_init fresh random_nums probabilities seed rng_arg = Inr self \<Longrightarrow> reachable self"
| removed: "reachable self \<Longrightarrow> remove value index self = (Inr (), self') \<Longrightarrow> reachable self'"
| drawn: "reachable self \<Longrightarrow> reachable (snd (RandomGen_next self))"
| reseeded: "reachable self \<Longrightarrow> reachable (set_seed new_seed self)"

section \<open>Sample tables\<close>

text \<open>
  The tables of the concrete runs below, each the result of a constructor call or of a
  \<^verbatim>\<open>remove\<close> (shown after the lemmas), and the condition \<^verbatim>\<open>isinstance(k, int) and k > 0\<close>
  on a draw count.
\<close>

definition demo_table :: "unit RandomGen" where
  "demo_table =
     \<lparr>rng = const_rng (1 / 2), seed_attr = None, nums = [PInt (- 1), PInt 0, PInt 1],
      probs = [3 / 10, 3 / 10, 4 / 10], cdf = [3 / 10, 6 / 10, 1]\<rparr>"

definition uniform_pair :: "unit RandomGen" where
  "uniform_pair =
     \<lparr>rng = const_rng (1 / 2), seed_attr = None, nums = [PInt 1, PInt 2],
      probs = [1 / 2, 1 / 2], cdf = [1 / 2, 1]\<rparr>"


text \<open>
  The state of a table as the specification describes it, with the upper bound on a single
  probability as a parameter: aligned lists of length at least one, every probability in
  \<open>(0, bound]\<close>, the probabilities summing to 1 up to \<^verbatim>\<open>isclose\<close>, and a non-decreasing cdf
  whose last element is 1 up to \<^verbatim>\<open>isclose\<close>.
\<close>

definition table_ok :: "rat \<Rightarrow> 'g RandomGen \<Rightarrow> bool" where
  "table_ok bound self =
     (length (nums self) = length (probs self) \<and> length (probs self) = length (cdf self)
      \<and> 1 \<le> length (nums self)
      \<and> list_all (\<lambda>p. 0 < p \<and> p \<le> bound) (probs self)
      \<and> isclose (py_sum (probs self)) 1
      \<and> sorted (cdf self) \<and> isclose (last (cdf self)) 1)"

definition heavy_pair :: "unit RandomGen" where
  "heavy_pair =
     \<lparr>rng = const_rng (1 / 2), seed_attr = None, nums = [PInt 1, PInt 2],
      probs = [1, 1 / 200000], cdf = [1, 200001 / 200000]\<rparr>"

definition heavy_removed :: "unit RandomGen" where
  "heavy_removed =
     \<lparr>rng = const_rng (1 / 2), seed_attr = None, nums = [PInt 1],
      probs = [200001 / 200000], cdf = [200001 / 200000]\<rparr>"

definition short_pair :: "unit RandomGen" where
  "short_pair =
     \<lparr>rng = const_rng (999999 / 1000000), seed_attr = None, nums = [PInt 1, PInt 2],
      probs = [1 / 2, 99999 / 200000], cdf = [1 / 2, 199999 / 200000]\<rparr>"

section \<open>The sampler as Python objects: references and binary64\<close>

text \<open>
  The constructor keeps the objects it is given: \<^verbatim>\<open>self.nums = random_nums\<close>,
  \<^verbatim>\<open>self.probs = probabilities\<close> and \<^verbatim>\<open>self.rng = rng\<close> store references and copy nothing. So
  the values and the probabilities of a sampler can be one list, and two samplers can hold
  one random source. \<^verbatim>\<open>remove\<close> changes the two lists in place (\<^verbatim>\<open>pop\<close>, then \<^verbatim>\<open>remove\<close>) before
  it binds \<^verbatim>\<open>self.probs\<close> to a new list, and its quotient and sums are binary64 operations.
  This level models both. The arithmetic takes the rounding function \<open>rnd\<close> as a
  parameter: a floating-point operation returns \<open>rnd\<close> of its exact result.
\<close>

subsection \<open>Rounding to binary64\<close>

text \<open>
  \<open>b64_round x\<close> is the binary64 number nearest to \<open>x\<close>, a tie going to the even
  significand: 53 significant bits, and a spacing of at least \<open>2 powi - 1074\<close>, that of
  the subnormal numbers. Results above the largest binary64 number, which round to infinity,
  are outside the model. \<open>num_bits\<close> counts the binary digits of a positive numeral, and
  \<open>ilog2 x\<close> is the exponent \<open>e\<close> with \<open>2 powi e \<le> x < 2 powi (e + 1)\<close> for a
  positive \<open>x\<close>. A decimal literal of the source such as \<^verbatim>\<open>0.3\<close> denotes
  \<open>b64_round (3 / 10)\<close>.
\<close>

fun num_bits :: "num \<Rightarrow> nat" where
  "num_bits num.One = 1"
| "num_bits (num.Bit0 k) = Suc (num_bits k)"
| "num_bits (num.Bit1 k) = Suc (num_bits k)"

definition int_bits :: "int \<Rightarrow> int" where
  "int_bits i = (if 0 < i then int (num_bits (num_of_nat (nat i))) else 0)"

definition ilog2 :: "rat \<Rightarrow> int" where
  "ilog2 x =
     (if 1 \<le> x then int_bits \<lfloor>x\<rfloor> - 1
      else (let c = \<lfloor>1 / x\<rfloor>
            in if of_int c = 1 / x then - int_bits (c - 1) else - int_bits c))"

definition rne :: "rat \<Rightarrow> int" where
  "rne t = (let n = \<lfloor>t\<rfloor>; f = t - of_int n
            in if f < 1 / 2 then n else if 1 / 2 < f then n + 1
               else if even n then n else n + 1)"

definition b64_round :: "rat \<Rightarrow> rat" where
  "b64_round x =
     (if x = 0 then 0
      else (let q = 2 powi (max (ilog2 \<bar>x\<bar> - 52) (- 1074))
            in of_int (rne (x / q)) * q))"

text \<open>
  \<^verbatim>\<open>sum(ps)\<close> adds from the left, starting at the integer 0 (CPython up to 3.11; later
  versions compensate the rounding errors of a sum of floats, which can change its last
  bit). \<^verbatim>\<open>isclose(a, b)\<close> evaluates \<^verbatim>\<open>abs(a - b) <= atol + rtol * abs(b)\<close> in binary64, and
  \<^verbatim>\<open>cumsum\<close> keeps the first element and rounds every later partial sum.
\<close>

definition sum_rnd :: "(rat \<Rightarrow> rat) \<Rightarrow> rat list \<Rightarrow> rat" where
  "sum_rnd rnd ps = foldl (\<lambda>a p. rnd (a + p)) 0 ps"

definition isclose_rnd :: "(rat \<Rightarrow> rat) \<Rightarrow> rat \<Rightarrow> rat \<Rightarrow> bool" where
  "isclose_rnd rnd a b = (\<bar>rnd (a - b)\<bar> \<le> rnd (rnd atol + rnd (rnd rtol * \<bar>b\<bar>)))"

fun cumsum_rnd_from :: "(rat \<Rightarrow> rat) \<Rightarrow> rat \<Rightarrow> rat list \<Rightarrow> rat list" where
  "cumsum_rnd_from rnd acc [] = []"
| "cumsum_rnd_from rnd acc (p # ps) = rnd (acc + p) # cumsum_rnd_from rnd (rnd (acc + p)) ps"

definition cumsum_rnd :: "(rat \<Rightarrow> rat) \<Rightarrow> rat list \<Rightarrow> rat list" where
  "cumsum_rnd rnd ps = (case ps of [] \<Rightarrow> [] | p # ps' \<Rightarrow> p # cumsum_rnd_from rnd p ps')"

subsection \<open>The store and the sampler object\<close>

text \<open>
  The store holds the list objects and the random sources of a program. A reference is the
  position of an object in the store, and a new object is appended. The sampler holds the
  references \<^verbatim>\<open>self.rng\<close>, \<^verbatim>\<open>self.nums\<close> and \<^verbatim>\<open>self.probs\<close>, the value \<^verbatim>\<open>self._seed\<close>, and the
  array \<^verbatim>\<open>self.cdf\<close>, which \<^verbatim>\<open>cumsum\<close> builds anew and nothing else refers to.
\<close>

record 'g store =
  list_objs :: "pynum list list"
  rng_objs :: "'g rng_obj list"

record sampler =
  rng_ref :: nat
  seed_val :: "int option"
  nums_ref :: nat
  probs_ref :: nat
  cdf_arr :: "rat list"

text \<open>
  \<^verbatim>\<open>__init__\<close> on references. The random source is seeded in the store before the checks, so
  a constructor call that raises has reseeded a source that was passed in. The default
  probabilities \<^verbatim>\<open>[1 / n] * n\<close> are a new list object.
\<close>

definition init_obj ::
  "(rat \<Rightarrow> rat) \<Rightarrow> 'g rng_obj \<Rightarrow> nat \<Rightarrow> nat option \<Rightarrow> int option \<Rightarrow> nat option \<Rightarrow> 'g store
     \<Rightarrow> (error + sampler) \<times> 'g store" where
  "init_obj rnd fresh random_nums probabilities seed rng_arg \<sigma> =
     (case (case rng_arg of
              None \<Rightarrow> (length (rng_objs \<sigma>), \<sigma>\<lparr>rng_objs := rng_objs \<sigma> @ [fresh]\<rparr>)
            | Some r \<Rightarrow> (r, \<sigma>))
      of (r, \<sigma>1) \<Rightarrow>
        (let \<sigma>2 = (case seed of
                     None \<Rightarrow> \<sigma>1
                   | Some s \<Rightarrow> \<sigma>1\<lparr>rng_objs := (rng_objs \<sigma>1)[r := call_seed s (rng_objs \<sigma>1 ! r)]\<rparr>);
             n = length (list_objs \<sigma>2 ! random_nums)
         in if n = 0 then (Inl EmptyInputError, \<sigma>2)
            else if py_len_set (list_objs \<sigma>2 ! random_nums) < n then (Inl DuplicateValueError, \<sigma>2)
            else (case (case probabilities of
                          None \<Rightarrow> None
                        | Some p \<Rightarrow> if list_objs \<sigma>2 ! p = [] then None else Some p)
                  of
                    Some p \<Rightarrow>
                      (let ps = map num_val (list_objs \<sigma>2 ! p)
                       in if length ps \<noteq> n then (Inl LengthMismatchError, \<sigma>2)
                          else if \<not> isclose_rnd rnd (sum_rnd rnd ps) 1
                                  \<or> list_ex (\<lambda>q. q \<le> 0 \<or> q > 1) ps
                               then (Inl InvalidProbabilityError, \<sigma>2)
                          else (Inr \<lparr>rng_ref = r, seed_val = seed, nums_ref = random_nums,
                                     probs_ref = p, cdf_arr = cumsum_rnd rnd ps\<rparr>, \<sigma>2))
                  | None \<Rightarrow>
                      (let ps = replicate n (PFloat (rnd (1 / of_nat n)))
                       in (Inr \<lparr>rng_ref = r, seed_val = seed, nums_ref = random_nums,
                                 probs_ref = length (list_objs \<sigma>2),
                                 cdf_arr = cumsum_rnd rnd (map num_val ps)\<rparr>,
                           \<sigma>2\<lparr>list_objs := list_objs \<sigma>2 @ [ps]\<rparr>)))))"

text \<open>
  \<^verbatim>\<open>__next__\<close> on references: the draw changes the random source in the store, where every
  sampler that holds the source sees it. \<open>draw_seq_obj m\<close> is \<open>m\<close> successive calls.
\<close>

definition next_obj :: "sampler \<Rightarrow> 'g store \<Rightarrow> (error + pynum) \<times> 'g store" where
  "next_obj self \<sigma> =
     (case call_random (rng_objs \<sigma> ! rng_ref self) of (rnum, r') \<Rightarrow>
        (let \<sigma>' = \<sigma>\<lparr>rng_objs := (rng_objs \<sigma>)[rng_ref self := r']\<rparr>;
             idx = searchsorted (cdf_arr self) rnum
         in (if idx < length (list_objs \<sigma>' ! nums_ref self) then Inr (list_objs \<sigma>' ! nums_ref self ! idx)
             else Inl ListIndexError,
             \<sigma>')))"

fun draw_seq_obj :: "nat \<Rightarrow> sampler \<Rightarrow> 'g store \<Rightarrow> (error + pynum) list \<times> 'g store" where
  "draw_seq_obj 0 self \<sigma> = ([], \<sigma>)"
| "draw_seq_obj (Suc m) self \<sigma> =
     (case next_obj self \<sigma> of (x, \<sigma>') \<Rightarrow>
        (case draw_seq_obj m self \<sigma>' of (xs, \<sigma>'') \<Rightarrow> (x # xs, \<sigma>'')))"

text \<open>
  \<^verbatim>\<open>remove\<close> on references. \<^verbatim>\<open>self.probs.pop(index)\<close> changes the list object of the
  probabilities; \<^verbatim>\<open>self.nums.remove(value)\<close> then searches the list object of the values,
  which is the same object when the two references are equal, and raises \<^verbatim>\<open>ValueError\<close> when
  the value is not in it, after the \<^verbatim>\<open>pop\<close>. The new probabilities are a new list object.
\<close>

definition remove_obj ::
  "(rat \<Rightarrow> rat) \<Rightarrow> pynum option \<Rightarrow> int option \<Rightarrow> sampler \<Rightarrow> 'g store
     \<Rightarrow> (error + unit) \<times> sampler \<times> 'g store" where
  "remove_obj rnd value index self \<sigma> =
     (if \<not> ((value = None) \<noteq> (index = None)) then (Inl AmbiguousSelectorError, self, \<sigma>)
      else
        (let n_prev = length (list_objs \<sigma> ! nums_ref self) in
         case (case (value, index) of
                 (None, Some i) \<Rightarrow>
                   if \<not> (- int n_prev \<le> i \<and> i < int n_prev) then Inl (IndexOutOfRangeError i n_prev)
                   else (case py_getitem (list_objs \<sigma> ! nums_ref self) i of
                           None \<Rightarrow> Inl ListIndexError
                         | Some v \<Rightarrow> Inr (v, i))
               | (Some v, None) \<Rightarrow>
                   if \<not> py_in v (list_objs \<sigma> ! nums_ref self) then Inl RaiseStrTypeError
                   else (case py_index v (list_objs \<sigma> ! nums_ref self) of
                           None \<Rightarrow> Inl ListValueError
                         | Some j \<Rightarrow> Inr (v, int j))
               | _ \<Rightarrow> Inl AmbiguousSelectorError)
         of
           Inl e \<Rightarrow> (Inl e, self, \<sigma>)
         | Inr (value', index') \<Rightarrow>
             if n_prev \<le> 1 then (Inl SingleElementError, self, \<sigma>)
             else
               (case py_pop (list_objs \<sigma> ! probs_ref self) index' of
                  None \<Rightarrow> (Inl PopIndexError, self, \<sigma>)
                | Some (p, probs1) \<Rightarrow>
                    (let delta = rnd (num_val p / of_nat (n_prev - 1));
                         \<sigma>1 = \<sigma>\<lparr>list_objs := (list_objs \<sigma>)[probs_ref self := probs1]\<rparr>
                     in case py_remove value' (list_objs \<sigma>1 ! nums_ref self) of
                          None \<Rightarrow> (Inl ListValueError, self, \<sigma>1)
                        | Some nums1 \<Rightarrow>
                            (let \<sigma>2 = \<sigma>1\<lparr>list_objs := (list_objs \<sigma>1)[nums_ref self := nums1]\<rparr>;
                                 new = map (\<lambda>q. PFloat (rnd (num_val q + delta)))
                                         (list_objs \<sigma>2 ! probs_ref self);
                                 \<sigma>3 = \<sigma>2\<lparr>list_objs := list_objs \<sigma>2 @ [new]\<rparr>;
                                 self3 = self\<lparr>probs_ref := length (list_objs \<sigma>2)\<rparr>;
                                 self4 = self3\<lparr>cdf_arr := cumsum_rnd rnd (map num_val new)\<rparr>
                             in (Inr (), self4, \<sigma>3))))))"

text \<open>
  The four errors with which \<^verbatim>\<open>remove\<close> rejects its arguments: both or neither selector, a
  position out of range, an absent value, and a single remaining outcome.
\<close>

definition selector_error :: "error \<Rightarrow> bool" where
  "selector_error e =
     (e = AmbiguousSelectorError \<or> e = RaiseStrTypeError \<or> e = SingleElementError
      \<or> (\<exists>i n. e = IndexOutOfRangeError i n))"

text \<open>
  Two samplers see the same table and the same state of their random sources.
\<close>

definition same_view :: "sampler \<Rightarrow> 'g store \<Rightarrow> sampler \<Rightarrow> 'g store \<Rightarrow> bool" where
  "same_view a \<sigma> b \<tau> =
     (cdf_arr a = cdf_arr b \<and> list_objs \<sigma> ! nums_ref a = list_objs \<tau> ! nums_ref b
      \<and> rng_objs \<sigma> ! rng_ref a = rng_objs \<tau> ! rng_ref b
      \<and> rng_ref a < length (rng_objs \<sigma>) \<and> rng_ref b < length (rng_objs \<tau>))"

subsection \<open>Sample stores\<close>

text \<open>
  The stores of the concrete runs below and the samplers that the constructor builds on
  them (shown after the lemmas): the table \<^verbatim>\<open>[-1, 0, 1]\<close> with \<^verbatim>\<open>[0.3, 0.3, 0.4]\<close>, with a
  constant source, with one linear congruential source and with two; the list
  \<^verbatim>\<open>x = [0.25, 0.75]\<close> passed as values and as probabilities; and a table of one outcome.
\<close>

definition demo_store :: "unit store" where
  "demo_store =
     \<lparr>list_objs = [[PInt (- 1), PInt 0, PInt 1],
               [PFloat (b64_round (3 / 10)), PFloat (b64_round (3 / 10)), PFloat (b64_round (4 / 10))]],
      rng_objs = [const_rng (1 / 2)]\<rparr>"

definition demo_obj :: sampler where
  "demo_obj = \<lparr>rng_ref = 0, seed_val = None, nums_ref = 0, probs_ref = 1,
          cdf_arr = [b64_round (3 / 10), 5404319552844595 / 9007199254740992, 1]\<rparr>"

definition alias_store :: "unit store" where
  "alias_store = \<lparr>list_objs = [[PFloat (1 / 4), PFloat (3 / 4)]], rng_objs = [const_rng (1 / 2)]\<rparr>"

definition alias_obj :: sampler where
  "alias_obj = \<lparr>rng_ref = 0, seed_val = None, nums_ref = 0, probs_ref = 0, cdf_arr = [1 / 4, 1]\<rparr>"

definition single_store :: "unit store" where
  "single_store = \<lparr>list_objs = [[PInt 7], [PInt 1]], rng_objs = [const_rng (1 / 2)]\<rparr>"

definition single_obj :: sampler where
  "single_obj = \<lparr>rng_ref = 0, seed_val = None, nums_ref = 0, probs_ref = 1, cdf_arr = [1]\<rparr>"

definition one_source :: "nat \<Rightarrow> nat store" where
  "one_source g =
     \<lparr>list_objs = [[PInt (- 1), PInt 0, PInt 1],
               [PFloat (b64_round (3 / 10)), PFloat (b64_round (3 / 10)), PFloat (b64_round (4 / 10))]],
      rng_objs = [lcg_rng g]\<rparr>"

definition two_sources :: "nat \<Rightarrow> nat \<Rightarrow> nat store" where
  "two_sources g h =
     \<lparr>list_objs = [[PInt (- 1), PInt 0, PInt 1],
               [PFloat (b64_round (3 / 10)), PFloat (b64_round (3 / 10)), PFloat (b64_round (4 / 10))]],
      rng_objs = [lcg_rng g, lcg_rng h]\<rparr>"

definition lcg_obj :: "nat \<Rightarrow> sampler" where
  "lcg_obj r = \<lparr>rng_ref = r, seed_val = Some 42, nums_ref = 0, probs_ref = 1,
          cdf_arr = [b64_round (3 / 10), 5404319552844595 / 9007199254740992, 1]\<rparr>"

section \<open>Lists, prefix sums and the binary search\<close>



lemma length_cumsum_from: "length (cumsum_from acc ps) = length ps"
  by (induction ps arbitrary: acc) simp_all

lemma cumsum_from_lower: "list_all (\<lambda>p. 0 < p) ps \<Longrightarrow> c \<in> set (cumsum_from acc ps) \<Longrightarrow> acc < c"
proof (induction ps arbitrary: acc)
  case Nil
  then show ?case by simp
next
  case (Cons p ps)
  from Cons.prems have p: "0 < p" and rest: "list_all (\<lambda>p. 0 < p) ps" by simp_all
  from Cons.prems(2) consider "c = acc + p" | "c \<in> set (cumsum_from (acc + p) ps)" by auto
  then show ?case
  proof cases
    case 1
    with p show ?thesis by simp
  next
    case 2
    from Cons.IH [OF rest 2] p show ?thesis by simp
  qed
qed

lemma sorted_cumsum_from: "list_all (\<lambda>p. 0 < p) ps \<Longrightarrow> sorted (cumsum_from acc ps)"
proof (induction ps arbitrary: acc)
  case Nil
  then show ?case by simp
next
  case (Cons p ps)
  from Cons.prems have rest: "list_all (\<lambda>p. 0 < p) ps" by simp
  have "\<forall>c \<in> set (cumsum_from (acc + p) ps). acc + p \<le> c"
    using cumsum_from_lower [OF rest] by (auto intro: less_imp_le)
  with Cons.IH [OF rest] show ?case by simp
qed

lemma last_cumsum_from: "ps \<noteq> [] \<Longrightarrow> last (cumsum_from acc ps) = acc + sum_list ps"
proof (induction ps arbitrary: acc)
  case Nil
  then show ?case by simp
next
  case (Cons p ps)
  show ?case
  proof (cases ps)
    case Nil
    then show ?thesis by simp
  next
    case (Cons q qs)
    then have ne: "ps \<noteq> []" by simp
    have "cumsum_from (acc + p) ps \<noteq> []" using ne by (cases ps) simp_all
    then show ?thesis using Cons.IH [OF ne, of "acc + p"] by (simp add: add.assoc)
  qed
qed

lemma binsearch_left_correct:
  assumes "sorted a" "lo \<le> hi" "hi \<le> length a"
    and "\<forall>j<lo. a ! j < key" and "\<forall>j. hi \<le> j \<and> j < length a \<longrightarrow> key \<le> a ! j"
  shows "lo \<le> binsearch_left a key lo hi \<and> binsearch_left a key lo hi \<le> hi
       \<and> (\<forall>j < binsearch_left a key lo hi. a ! j < key)
       \<and> (\<forall>j. binsearch_left a key lo hi \<le> j \<and> j < length a \<longrightarrow> key \<le> a ! j)"
  using assms
proof (induction a key lo hi rule: binsearch_left.induct)
  case (1 a key lo hi)
  show ?case
  proof (cases "lo < hi")
    case False
    have res: "binsearch_left a key lo hi = lo"
      using False by (simp add: binsearch_left.simps [of a key lo hi])
    from False "1.prems" have "lo = hi" by simp
    with res "1.prems" show ?thesis by simp
  next
    case True
    define mid where "mid = lo + (hi - lo) div 2"
    have mid: "lo \<le> mid" "mid < hi" using True by (simp_all add: mid_def) 
    show ?thesis
    proof (cases "a ! mid < key")
      case lt: True
      have below: "\<forall>j<mid + 1. a ! j < key"
      proof (intro allI impI)
        fix j assume "j < mid + 1"
        then have "j \<le> mid" by simp
        moreover have "mid < length a" using mid "1.prems" by simp
        ultimately have "a ! j \<le> a ! mid" using \<open>sorted a\<close> by (simp add: sorted_iff_nth_mono)
        with lt show "a ! j < key" by simp
      qed
      have eq: "binsearch_left a key lo hi = binsearch_left a key (mid + 1) hi"
        using True lt by (simp add: binsearch_left.simps [of a key lo hi] mid_def Let_def)
      have "mid + 1 \<le> binsearch_left a key (mid + 1) hi \<and> binsearch_left a key (mid + 1) hi \<le> hi
       \<and> (\<forall>j < binsearch_left a key (mid + 1) hi. a ! j < key)
       \<and> (\<forall>j. binsearch_left a key (mid + 1) hi \<le> j \<and> j < length a \<longrightarrow> key \<le> a ! j)"
        using "1.IH"(1) [OF True mid_def lt \<open>sorted a\<close> _ \<open>hi \<le> length a\<close> below "1.prems"(5)] mid
        by simp
      with eq mid show ?thesis by simp
    next
      case ge: False
      have above: "\<forall>j. mid \<le> j \<and> j < length a \<longrightarrow> key \<le> a ! j"
      proof (intro allI impI)
        fix j assume "mid \<le> j \<and> j < length a"
        then have "a ! mid \<le> a ! j" using \<open>sorted a\<close> by (simp add: sorted_iff_nth_mono)
        with ge show "key \<le> a ! j" by simp
      qed
      have eq: "binsearch_left a key lo hi = binsearch_left a key lo mid"
        using True ge by (simp add: binsearch_left.simps [of a key lo hi] mid_def Let_def)
      have "lo \<le> binsearch_left a key lo mid \<and> binsearch_left a key lo mid \<le> mid
       \<and> (\<forall>j < binsearch_left a key lo mid. a ! j < key)
       \<and> (\<forall>j. binsearch_left a key lo mid \<le> j \<and> j < length a \<longrightarrow> key \<le> a ! j)"
        using "1.IH"(2) [OF True mid_def ge \<open>sorted a\<close> mid(1) _ "1.prems"(4) above] mid "1.prems"
        by simp
      with eq mid show ?thesis by simp
    qed
  qed
qed

lemma searchsorted_correct:
  assumes "sorted a"
  shows "searchsorted a key \<le> length a
       \<and> (\<forall>j < searchsorted a key. a ! j < key)
       \<and> (\<forall>j. searchsorted a key \<le> j \<and> j < length a \<longrightarrow> key \<le> a ! j)"
  using binsearch_left_correct [OF assms, of 0 "length a" key] by (simp add: searchsorted_def)


lemma norm_index_Some: "norm_index i n = Some j \<Longrightarrow> j < n"
  by (auto simp: norm_index_def Let_def split: if_splits)

lemma norm_index_in_range: "- int n \<le> i \<Longrightarrow> i < int n \<Longrightarrow> \<exists>j<n. norm_index i n = Some j"
  by (auto simp: norm_index_def Let_def)

lemma norm_index_nat: "norm_index (int j) n = (if j < n then Some j else None)"
  by (simp add: norm_index_def)

lemma py_in_iff: "py_in v xs \<longleftrightarrow> (\<exists>x \<in> set xs. py_eq x v)"
  by (induction xs) auto

lemma py_index_Some:
  "py_index v xs = Some j \<Longrightarrow> j < length xs \<and> py_eq (xs ! j) v \<and> (\<forall>k<j. \<not> py_eq (xs ! k) v)"
proof (induction xs arbitrary: j)
  case Nil
  then show ?case by simp
next
  case (Cons x xs)
  show ?case
  proof (cases "py_eq x v")
    case True
    with Cons.prems show ?thesis by simp
  next
    case False
    with Cons.prems obtain j' where j': "py_index v xs = Some j'" "j = Suc j'" by auto
    from Cons.IH [OF j'(1)] False j'(2) show ?thesis by (auto simp: less_Suc_eq_0_disj)
  qed
qed

lemma py_index_None: "py_index v xs = None \<Longrightarrow> \<not> py_in v xs"
  by (induction xs) (auto split: if_splits)

lemma py_remove_index: "py_index v xs = Some j \<Longrightarrow> py_remove v xs = Some (delete_at j xs)"
proof (induction xs arbitrary: j)
  case Nil
  then show ?case by simp
next
  case (Cons x xs)
  show ?case
  proof (cases "py_eq x v")
    case True
    with Cons.prems show ?thesis by (simp add: delete_at_def)
  next
    case False
    with Cons.prems obtain j' where j': "py_index v xs = Some j'" "j = Suc j'" by auto
    from Cons.IH [OF j'(1)] False j'(2) show ?thesis by (simp add: delete_at_def)
  qed
qed

lemma py_index_distinct:
  "distinct (map num_val xs) \<Longrightarrow> j < length xs \<Longrightarrow> py_eq (xs ! j) v \<Longrightarrow> py_index v xs = Some j"
proof (induction xs arbitrary: j)
  case Nil
  then show ?case by simp
next
  case (Cons x xs)
  show ?case
  proof (cases j)
    case 0
    with Cons.prems show ?thesis by simp
  next
    case (Suc j')
    with Cons.prems have j': "j' < length xs" "py_eq (xs ! j') v" by simp_all
    then have "num_val (xs ! j') \<in> set (map num_val xs)" by simp
    with Cons.prems(1) have "num_val x \<noteq> num_val (xs ! j')" by auto
    with j'(2) have "\<not> py_eq x v" by (simp add: py_eq_def)
    moreover from Cons.IH [OF _ j'] Cons.prems(1) have "py_index v xs = Some j'" by simp
    ultimately show ?thesis using Suc by simp
  qed
qed









section \<open>The constructor and \<^verbatim>\<open>remove\<close> keep the table well formed\<close>



lemma dup_not_distinct: "py_len_set xs < length xs \<Longrightarrow> \<not> distinct (map num_val xs)"
  by (auto simp: py_len_set_def dest: distinct_remdups_id)








lemma py_in_remove: "py_in v xs \<Longrightarrow> py_remove v xs \<noteq> None"
  by (induction xs) (auto split: if_splits)

section \<open>Draws from a well-formed table\<close>

lemma table_inv_cdf:
  assumes "table_inv self"
  shows "sorted (cdf self)" and "length (cdf self) = length (nums self)"
    and "last (cdf self) = sum_list (probs self)"
proof -
  from assms have c: "cdf self = cumsum (probs self)" and p: "list_all (\<lambda>p. 0 < p) (probs self)"
    and l: "length (probs self) = length (nums self)" and ne: "nums self \<noteq> []"
    by (simp_all add: table_inv_def)
  show "sorted (cdf self)" using c p by (simp add: cumsum_def sorted_cumsum_from)
  show "length (cdf self) = length (nums self)" using c l by (simp add: cumsum_def length_cumsum_from)
  have "probs self \<noteq> []" using l ne by auto
  then show "last (cdf self) = sum_list (probs self)" using c by (simp add: cumsum_def last_cumsum_from)
qed


lemma next_in_range:
  assumes inv: "table_inv self" and le: "fst (call_random (rng self)) \<le> last (cdf self)"
  shows "\<exists>v. RandomGen_next self = (Inr v, self\<lparr>rng := snd (call_random (rng self))\<rparr>)
           \<and> v \<in> set (nums self)"
proof -
  note c = table_inv_cdf [OF inv]
  from inv have ne: "cdf self \<noteq> []" using c(2) by (auto simp: table_inv_def)
  let ?r = "fst (call_random (rng self))"
  let ?s = "searchsorted (cdf self) ?r"
  from searchsorted_correct [OF c(1), of ?r]
  have s: "?s \<le> length (cdf self)" "\<forall>j < ?s. cdf self ! j < ?r" by blast+
  have "?s \<noteq> length (cdf self)"
  proof
    assume eq: "?s = length (cdf self)"
    with ne have "length (cdf self) - 1 < ?s" by (cases "cdf self") simp_all
    with s(2) have "cdf self ! (length (cdf self) - 1) < ?r" by blast
    with le ne show False by (simp add: last_conv_nth)
  qed
  with s(1) have lt: "?s < length (nums self)" using c(2) by simp
  obtain r g where rg: "call_random (rng self) = (r, g)" by (cases "call_random (rng self)")
  with lt show ?thesis by (simp add: RandomGen_next_def Let_def)
qed

lemma next_k_loop_complete:
  assumes "table_inv self" and "\<forall>g. fst (rng_random (rng self) g) \<le> last (cdf self)"
  shows "\<exists>vs self'. next_k_loop k self = (vs, None, self') \<and> length vs = k
           \<and> set vs \<subseteq> set (nums self)"
  using assms
proof (induction k arbitrary: self)
  case 0
  then show ?case by simp
next
  case (Suc k)
  let ?self' = "self\<lparr>rng := snd (call_random (rng self))\<rparr>"
  have "fst (call_random (rng self)) \<le> last (cdf self)"
    using Suc.prems(2) by (simp add: call_random_def split: prod.splits) (metis fst_conv)
  from next_in_range [OF Suc.prems(1) this] obtain v where
    v: "RandomGen_next self = (Inr v, ?self')" "v \<in> set (nums self)" by blast
  have inv': "table_inv ?self'" using Suc.prems(1) by (simp add: table_inv_def)
  have src: "\<forall>g. fst (rng_random (rng ?self') g) \<le> last (cdf ?self')"
    using Suc.prems(2) by (simp add: call_random_def split: prod.splits)
  from Suc.IH [OF inv' src] obtain vs self'' where
    "next_k_loop k ?self' = (vs, None, self'')" "length vs = k" "set vs \<subseteq> set (nums self)"
    by auto
  with v show ?case by simp
qed

lemma next_k_nums_complete:
  assumes "table_inv self" and "\<forall>g. fst (rng_random (rng self) g) \<le> last (cdf self)"
    and "0 < k"
  shows "\<exists>vs self'. next_k_nums (PInt k) self = (vs, None, self') \<and> int (length vs) = k
           \<and> set vs \<subseteq> set (nums self)"
  using next_k_loop_complete [OF assms(1,2), of "nat k"] assms(3)
  by (auto simp: next_k_nums_def)

section \<open>The sample tables are constructed\<close>

lemma demo_table_init:
  "RandomGen_init (const_rng (1 / 2)) [PInt (- 1), PInt 0, PInt 1] (Some [3 / 10, 3 / 10, 4 / 10])
     None None = Inr demo_table"
  by (simp add: RandomGen_init_def demo_table_def py_len_set_def py_sum_def isclose_def
      atol_def rtol_def cumsum_def)

lemma uniform_pair_init:
  "RandomGen_init (const_rng (1 / 2)) [PInt 1, PInt 2] (Some []) None None = Inr uniform_pair"
  by (simp add: RandomGen_init_def uniform_pair_def py_len_set_def cumsum_def numeral_2_eq_2)


lemma heavy_pair_init:
  "RandomGen_init (const_rng (1 / 2)) [PInt 1, PInt 2] (Some [1, 1 / 200000]) None None
     = Inr heavy_pair"
  by (simp add: RandomGen_init_def heavy_pair_def py_len_set_def py_sum_def isclose_def
      atol_def rtol_def cumsum_def)

lemma heavy_remove: "remove None (Some 1) heavy_pair = (Inr (), heavy_removed)"
  by (simp add: remove_def heavy_pair_def heavy_removed_def py_getitem_def py_eq_def py_pop_def
      norm_index_def delete_at_def cumsum_def)

lemma short_pair_init:
  "RandomGen_init (const_rng (999999 / 1000000)) [PInt 1, PInt 2] (Some [1 / 2, 99999 / 200000])
     None None = Inr short_pair"
  by (simp add: RandomGen_init_def short_pair_def py_len_set_def py_sum_def isclose_def
      atol_def rtol_def cumsum_def)


lemma short_pair_next: "RandomGen_next short_pair = (Inl ListIndexError, short_pair)"
  by (simp add: RandomGen_next_def short_pair_def call_random_def const_rng_def
      searchsorted_def binsearch_left.simps)

lemma reachable_uniform_pair: "reachable uniform_pair"
  using uniform_pair_init by (rule reachable.constructed)

lemma reachable_demo_table: "reachable demo_table"
  using demo_table_init by (rule reachable.constructed)

section \<open>\<^verbatim>\<open>remove\<close> on list objects\<close>

lemma remove_obj_success:
  assumes ok: "remove_obj rnd val index self \<sigma> = (Inr (), self', \<sigma>')"
    and sep: "nums_ref self \<noteq> probs_ref self"
    and inr: "nums_ref self < length (list_objs \<sigma>)" "probs_ref self < length (list_objs \<sigma>)"
    and len: "length (list_objs \<sigma> ! probs_ref self) = length (list_objs \<sigma> ! nums_ref self)"
  shows "\<exists>j k. j < length (list_objs \<sigma> ! nums_ref self) \<and> 2 \<le> length (list_objs \<sigma> ! nums_ref self)
           \<and> py_index (list_objs \<sigma> ! nums_ref self ! j) (list_objs \<sigma> ! nums_ref self) = Some k
           \<and> ((\<exists>i. val = None \<and> index = Some i
                    \<and> norm_index i (length (list_objs \<sigma> ! nums_ref self)) = Some j)
               \<or> (\<exists>v. val = Some v \<and> index = None
                    \<and> py_index v (list_objs \<sigma> ! nums_ref self) = Some j \<and> k = j))
           \<and> nums_ref self' = nums_ref self
           \<and> list_objs \<sigma>' ! nums_ref self' = delete_at k (list_objs \<sigma> ! nums_ref self)
           \<and> list_objs \<sigma>' ! probs_ref self'
               = map (\<lambda>q. PFloat (rnd (num_val q
                       + rnd (num_val (list_objs \<sigma> ! probs_ref self ! j)
                              / of_nat (length (list_objs \<sigma> ! nums_ref self) - 1)))))
                   (delete_at j (list_objs \<sigma> ! probs_ref self))
           \<and> cdf_arr self' = cumsum_rnd rnd (map num_val (list_objs \<sigma>' ! probs_ref self'))"
proof (cases "val")
  case None
  let ?nums = "list_objs \<sigma> ! nums_ref self"
  from ok None obtain i where i: "index = Some i" by (cases index) (auto simp: remove_obj_def)
  from ok None i have rng: "- int (length ?nums) \<le> i" "i < int (length ?nums)"
    by (auto simp: remove_obj_def Let_def split: if_splits)
  then obtain j where j: "j < length ?nums" "norm_index i (length ?nums) = Some j"
    using norm_index_in_range by blast
  have "py_in (?nums ! j) ?nums" using j(1) by (auto simp: py_in_iff py_eq_def)
  then obtain k where k: "py_index (?nums ! j) ?nums = Some k"
    using py_index_None by (cases "py_index (?nums ! j) ?nums") auto
  from ok None i rng j k len sep inr show ?thesis
    by (auto simp: remove_obj_def Let_def py_getitem_def py_pop_def py_remove_index nth_append
        split: if_splits)
next
  case (Some v)
  let ?nums = "list_objs \<sigma> ! nums_ref self"
  from ok Some have idx: "index = None" by (cases index) (auto simp: remove_obj_def)
  from ok Some idx have c: "py_in v ?nums"
    by (auto simp: remove_obj_def Let_def split: if_splits)
  then obtain j where j: "py_index v ?nums = Some j"
    using py_index_None by (cases "py_index v ?nums") auto
  from py_index_Some [OF j] have jl: "j < length ?nums" and eq: "py_eq (?nums ! j) v"
    and first: "\<forall>k<j. \<not> py_eq (?nums ! k) v" by simp_all
  have same: "py_index (?nums ! j) ?nums = Some j"
  proof -
    have "py_in (?nums ! j) ?nums" using jl by (auto simp: py_in_iff py_eq_def)
    then obtain k where k: "py_index (?nums ! j) ?nums = Some k"
      using py_index_None by (cases "py_index (?nums ! j) ?nums") auto
    from py_index_Some [OF k] have "k < length ?nums" "py_eq (?nums ! k) (?nums ! j)"
      "\<forall>m<k. \<not> py_eq (?nums ! m) (?nums ! j)" by simp_all
    with eq first jl have "\<not> k < j" "\<not> j < k" by (auto simp: py_eq_def)
    with k show ?thesis by simp
  qed
  from ok Some idx j jl same len c sep inr show ?thesis
    by (auto simp: remove_obj_def Let_def py_pop_def norm_index_nat py_remove_index nth_append
        split: if_splits)
qed

lemma remove_obj_separate:
  assumes sep: "nums_ref self \<noteq> probs_ref self"
  shows "(\<exists>e. remove_obj rnd val index self \<sigma> = (Inl e, self, \<sigma>))
       \<or> (\<exists>self' \<sigma>'. remove_obj rnd val index self \<sigma> = (Inr (), self', \<sigma>'))"
proof (cases "\<exists>e. remove_obj rnd val index self \<sigma> = (Inl e, self, \<sigma>)")
  case True
  then show ?thesis by blast
next
  case False
  let ?nums = "list_objs \<sigma> ! nums_ref self"
  from False have nf: "\<And>e. remove_obj rnd val index self \<sigma> \<noteq> (Inl e, self, \<sigma>)" by blast
  show ?thesis
  proof (cases "val")
    case None
    with nf [of AmbiguousSelectorError] obtain i where i: "index = Some i"
      by (cases index) (auto simp: remove_obj_def)
    from nf [of "IndexOutOfRangeError i (length ?nums)"] None i
    have rng: "- int (length ?nums) \<le> i" "i < int (length ?nums)"
      by (auto simp: remove_obj_def Let_def split: if_splits)
    then obtain j where j: "j < length ?nums" "norm_index i (length ?nums) = Some j"
      using norm_index_in_range by blast
    have "py_in (?nums ! j) ?nums" using j(1) by (auto simp: py_in_iff py_eq_def)
    then obtain ys where ys: "py_remove (?nums ! j) ?nums = Some ys"
      using py_in_remove by blast
    from nf [of SingleElementError] nf [of PopIndexError] None i rng j ys sep show ?thesis
      by (auto simp: remove_obj_def Let_def py_getitem_def split: if_splits option.splits)
  next
    case (Some v)
    with nf [of AmbiguousSelectorError] have idx: "index = None"
      by (cases index) (auto simp: remove_obj_def)
    from nf [of RaiseStrTypeError] Some idx have c: "py_in v ?nums"
      by (auto simp: remove_obj_def Let_def split: if_splits)
    then obtain j where j: "py_index v ?nums = Some j"
      using py_index_None by (cases "py_index v ?nums") auto
    from c obtain ys where ys: "py_remove v ?nums = Some ys" using py_in_remove by blast
    from nf [of SingleElementError] nf [of PopIndexError] Some idx c j ys sep show ?thesis
      by (auto simp: remove_obj_def Let_def split: if_splits option.splits)
  qed
qed

lemma remove_obj_early:
  assumes "fst (remove_obj rnd val index self \<sigma>) = Inl e"
    and "e \<noteq> ListValueError"
  shows "snd (remove_obj rnd val index self \<sigma>) = (self, \<sigma>)"
  using assms
  by (auto simp: remove_obj_def Let_def split: if_splits option.splits sum.splits prod.splits)

section \<open>Evaluating binary64 arithmetic; the sample stores are constructed\<close>

lemma floor_rat_numeral:
  "\<lfloor>numeral a / numeral b :: rat\<rfloor> = numeral a div numeral b"
  "\<lfloor>- (numeral a / numeral b) :: rat\<rfloor> = - numeral a div numeral b"
  using floor_divide_of_int_eq [of "numeral a" "numeral b", where ?'a = rat]
    floor_divide_of_int_eq [of "- numeral a" "numeral b", where ?'a = rat]
  by simp_all

lemma int_bits_numeral:
  "int_bits (numeral k) = int (num_bits k)" "int_bits 0 = 0" "int_bits 1 = 1"
  "int_bits (- numeral k) = 0"
  by (simp_all add: int_bits_def)

lemmas b64_eval = b64_round_def ilog2_def rne_def Let_def power_int_minus floor_rat_numeral
  int_bits_numeral

lemma demo_obj_init:
  "init_obj b64_round (const_rng 0) 0 (Some 1) None (Some 0) demo_store = (Inr demo_obj, demo_store)"
  by (simp add: init_obj_def demo_store_def demo_obj_def py_len_set_def sum_rnd_def isclose_rnd_def
      cumsum_rnd_def atol_def rtol_def b64_eval)

lemma alias_obj_init:
  "init_obj b64_round (const_rng 0) 0 (Some 0) None (Some 0) alias_store = (Inr alias_obj, alias_store)"
  by (simp add: init_obj_def alias_store_def alias_obj_def py_len_set_def sum_rnd_def isclose_rnd_def
      cumsum_rnd_def atol_def rtol_def b64_eval)

lemma single_obj_init:
  "init_obj b64_round (const_rng 0) 0 (Some 1) None (Some 0) single_store = (Inr single_obj, single_store)"
  by (simp add: init_obj_def single_store_def single_obj_def py_len_set_def sum_rnd_def isclose_rnd_def
      cumsum_rnd_def atol_def rtol_def b64_eval)

lemma demo_obj_remove:
  "fst (remove_obj b64_round (Some (PInt 0)) None demo_obj demo_store) = Inr ()"
  "nums_ref (fst (snd (remove_obj b64_round (Some (PInt 0)) None demo_obj demo_store))) = 0"
  "probs_ref (fst (snd (remove_obj b64_round (Some (PInt 0)) None demo_obj demo_store))) = 2"
  "list_objs (snd (snd (remove_obj b64_round (Some (PInt 0)) None demo_obj demo_store)))
     = [[PInt (- 1), PInt 1],
        [PFloat (b64_round (3 / 10)), PFloat (b64_round (4 / 10))],
        [PFloat (8106479329266892 / 18014398509481984), PFloat (b64_round (55 / 100))]]"
  by (simp_all add: remove_obj_def demo_store_def demo_obj_def py_eq_def py_pop_def norm_index_def
      delete_at_def cumsum_rnd_def b64_eval)

section \<open>Draws through references\<close>

lemma init_obj_success:
  assumes "init_obj rnd fresh v p seed rarg \<sigma> = (Inr s, \<sigma>')"
  shows "nums_ref s = v
       \<and> rng_ref s = (case rarg of None \<Rightarrow> length (rng_objs \<sigma>) | Some r \<Rightarrow> r)
       \<and> rng_objs \<sigma>'
           = (case seed of
                None \<Rightarrow> (case rarg of None \<Rightarrow> rng_objs \<sigma> @ [fresh] | Some r \<Rightarrow> rng_objs \<sigma>)
              | Some sd \<Rightarrow>
                  (case rarg of None \<Rightarrow> rng_objs \<sigma> @ [fresh] | Some r \<Rightarrow> rng_objs \<sigma>)
                    [rng_ref s := call_seed sd
                       ((case rarg of None \<Rightarrow> rng_objs \<sigma> @ [fresh] | Some r \<Rightarrow> rng_objs \<sigma>)
                          ! rng_ref s)])
       \<and> ((\<exists>r. p = Some r \<and> list_objs \<sigma> ! r \<noteq> [] \<and> probs_ref s = r \<and> list_objs \<sigma>' = list_objs \<sigma>
              \<and> cdf_arr s = cumsum_rnd rnd (map num_val (list_objs \<sigma> ! r)))
           \<or> ((p = None \<or> (\<exists>r. p = Some r \<and> list_objs \<sigma> ! r = []))
              \<and> probs_ref s = length (list_objs \<sigma>)
              \<and> list_objs \<sigma>'
                  = list_objs \<sigma> @ [replicate (length (list_objs \<sigma> ! v))
                                   (PFloat (rnd (1 / of_nat (length (list_objs \<sigma> ! v)))))]
              \<and> cdf_arr s
                  = cumsum_rnd rnd (map num_val (replicate (length (list_objs \<sigma> ! v))
                                   (PFloat (rnd (1 / of_nat (length (list_objs \<sigma> ! v)))))))))"
  using assms
  by (cases rarg; cases seed; cases p)
     (auto simp: init_obj_def Let_def split: if_splits)

lemma next_obj_frame:
  "list_objs (snd (next_obj s \<sigma>)) = list_objs \<sigma>
   \<and> length (rng_objs (snd (next_obj s \<sigma>))) = length (rng_objs \<sigma>)
   \<and> (r \<noteq> rng_ref s \<longrightarrow> rng_objs (snd (next_obj s \<sigma>)) ! r = rng_objs \<sigma> ! r)"
  by (simp add: next_obj_def Let_def split: prod.splits)

lemma draw_seq_obj_frame:
  "list_objs (snd (draw_seq_obj m s \<sigma>)) = list_objs \<sigma>
   \<and> length (rng_objs (snd (draw_seq_obj m s \<sigma>))) = length (rng_objs \<sigma>)
   \<and> (r \<noteq> rng_ref s \<longrightarrow> rng_objs (snd (draw_seq_obj m s \<sigma>)) ! r = rng_objs \<sigma> ! r)"
proof (induction m arbitrary: \<sigma>)
  case 0
  show ?case by simp
next
  case (Suc m)
  obtain x \<sigma>1 where n: "next_obj s \<sigma> = (x, \<sigma>1)" by (cases "next_obj s \<sigma>")
  obtain xs \<sigma>2 where d: "draw_seq_obj m s \<sigma>1 = (xs, \<sigma>2)" by (cases "draw_seq_obj m s \<sigma>1")
  from next_obj_frame [of s \<sigma> r] n Suc.IH [of \<sigma>1] d show ?case by simp
qed

lemma next_obj_same_view:
  assumes "same_view a \<sigma> b \<tau>"
  shows "fst (next_obj a \<sigma>) = fst (next_obj b \<tau>)
       \<and> same_view a (snd (next_obj a \<sigma>)) b (snd (next_obj b \<tau>))"
  using assms by (simp add: same_view_def next_obj_def Let_def split: prod.splits)

lemma draw_seq_obj_same_view:
  "same_view a \<sigma> b \<tau> \<Longrightarrow> fst (draw_seq_obj m a \<sigma>) = fst (draw_seq_obj m b \<tau>)"
proof (induction m arbitrary: \<sigma> \<tau>)
  case 0
  show ?case by simp
next
  case (Suc m)
  obtain x \<sigma>1 where n: "next_obj a \<sigma> = (x, \<sigma>1)" by (cases "next_obj a \<sigma>")
  obtain y \<tau>1 where n': "next_obj b \<tau> = (y, \<tau>1)" by (cases "next_obj b \<tau>")
  from next_obj_same_view [OF Suc.prems] n n' have xy: "x = y" and v: "same_view a \<sigma>1 b \<tau>1"
    by simp_all
  from Suc.IH [OF v] xy n n' show ?case by (auto split: prod.splits)
qed

lemma one_source_init:
  "init_obj b64_round (lcg_rng 0) 0 (Some 1) (Some 42) (Some 0) (one_source g)
     = (Inr (lcg_obj 0), one_source 42)"
  by (simp add: init_obj_def one_source_def lcg_obj_def py_len_set_def sum_rnd_def isclose_rnd_def
      cumsum_rnd_def atol_def rtol_def call_seed_def lcg_rng_def b64_eval)

lemma two_sources_init:
  "init_obj b64_round (lcg_rng 0) 0 (Some 1) (Some 42) (Some 0) (two_sources g h)
     = (Inr (lcg_obj 0), two_sources 42 h)"
  "init_obj b64_round (lcg_rng 0) 0 (Some 1) (Some 42) (Some 1) (two_sources g h)
     = (Inr (lcg_obj 1), two_sources g 42)"
  by (simp_all add: init_obj_def two_sources_def lcg_obj_def py_len_set_def sum_rnd_def
      isclose_rnd_def cumsum_rnd_def atol_def rtol_def call_seed_def lcg_rng_def b64_eval)

lemma one_source_next:
  "next_obj (lcg_obj 0) (one_source 42) = (Inr (PInt (- 1)), one_source 22539)"
  "next_obj (lcg_obj 0) (one_source 22539) = (Inr (PInt 0), one_source 42944)"
  "next_obj (lcg_obj 0) (one_source 42944) = (Inr (PInt 1), one_source 26841)"
  "next_obj (lcg_obj 0) (one_source 26841) = (Inr (PInt 0), one_source 6182)"
  "next_obj (lcg_obj 0) (one_source 6182) = (Inr (PInt (- 1)), one_source 50871)"
  "next_obj (lcg_obj 0) (one_source 50871) = (Inr (PInt 1), one_source 16092)"
  by (simp_all add: next_obj_def one_source_def lcg_obj_def call_random_def lcg_rng_def
      searchsorted_def binsearch_left.simps b64_eval)

lemma one_source_draws:
  "draw_seq_obj 3 (lcg_obj 0) (one_source 42)
     = ([Inr (PInt (- 1)), Inr (PInt 0), Inr (PInt 1)], one_source 26841)"
  "draw_seq_obj 3 (lcg_obj 0) (one_source 26841)
     = ([Inr (PInt 0), Inr (PInt (- 1)), Inr (PInt 1)], one_source 16092)"
  by (simp_all add: numeral_3_eq_3 one_source_next)

lemma two_sources_next:
  "next_obj (lcg_obj 0) (two_sources 42 h) = (Inr (PInt (- 1)), two_sources 22539 h)"
  "next_obj (lcg_obj 0) (two_sources 22539 h) = (Inr (PInt 0), two_sources 42944 h)"
  "next_obj (lcg_obj 0) (two_sources 42944 h) = (Inr (PInt 1), two_sources 26841 h)"
  by (simp_all add: next_obj_def two_sources_def lcg_obj_def call_random_def lcg_rng_def
      searchsorted_def binsearch_left.simps b64_eval)

lemma two_sources_draws:
  "draw_seq_obj 3 (lcg_obj 0) (two_sources 42 h)
     = ([Inr (PInt (- 1)), Inr (PInt 0), Inr (PInt 1)], two_sources 26841 h)"
  by (simp add: numeral_3_eq_3 two_sources_next)

section \<open>The claims\<close>

subsection \<open>C1: which outcome a draw returns\<close>




subsection \<open>C2: \<^verbatim>\<open>remove\<close> shares the removed probability equally\<close>

text \<open>
  Claim C2 as stated is false on its own example: the quotient and the sums of \<^verbatim>\<open>remove\<close> are
  binary64 operations. Removing the value 0 from \<^verbatim>\<open>[-1, 0, 1]\<close> with probabilities
  \<^verbatim>\<open>[0.3, 0.3, 0.4]\<close> leaves the probabilities \<^verbatim>\<open>[0.44999999999999996, 0.55]\<close>. The first is
  the binary64 number \<open>8106479329266892 / 2 ^ 54\<close>, which is not the binary64 number
  \<^verbatim>\<open>0.45\<close>, and it differs from the old probability \<^verbatim>\<open>0.3\<close> by another amount than \<^verbatim>\<open>0.3 / 2\<close>.
\<close>

theorem remove_rounds_counterexample:
  "init_obj b64_round (const_rng 0) 0 (Some 1) None (Some 0) demo_store = (Inr demo_obj, demo_store)
   \<and> list_objs demo_store ! nums_ref demo_obj = [PInt (- 1), PInt 0, PInt 1]
   \<and> list_objs demo_store ! probs_ref demo_obj
       = [PFloat (b64_round (3 / 10)), PFloat (b64_round (3 / 10)), PFloat (b64_round (4 / 10))]
   \<and> fst (remove_obj b64_round (Some (PInt 0)) None demo_obj demo_store) = Inr ()
   \<and> list_objs (snd (snd (remove_obj b64_round (Some (PInt 0)) None demo_obj demo_store))) ! 2
       = [PFloat (8106479329266892 / 18014398509481984), PFloat (b64_round (55 / 100))]
   \<and> 8106479329266892 / 18014398509481984 \<noteq> b64_round (45 / 100)
   \<and> 8106479329266892 / 18014398509481984 - b64_round (3 / 10) \<noteq> b64_round (3 / 10) / 2"
proof -
  have "list_objs demo_store ! nums_ref demo_obj = [PInt (- 1), PInt 0, PInt 1]"
    "list_objs demo_store ! probs_ref demo_obj
       = [PFloat (b64_round (3 / 10)), PFloat (b64_round (3 / 10)), PFloat (b64_round (4 / 10))]"
    by (simp_all add: demo_store_def demo_obj_def)
  moreover have "8106479329266892 / 18014398509481984 \<noteq> b64_round (45 / 100)"
    "8106479329266892 / 18014398509481984 - b64_round (3 / 10) \<noteq> b64_round (3 / 10) / 2"
    by (simp_all add: b64_eval)
  ultimately show ?thesis using demo_obj_init demo_obj_remove by simp
qed

text \<open>
  Claim C2, amended. For every rounding of the arithmetic, every table whose values and
  probabilities are two list objects of the same length, the values pairwise different as
  numbers, and every selector: a successful \<^verbatim>\<open>remove\<close> happens on a table of size
  \<open>n_prev >= 2\<close>, deletes the outcome \<open>j\<close> that the selector names (the position, or the
  position of the value) from the values and from the probabilities, and replaces each
  remaining probability \<open>p\<close> by the rounded sum of \<open>p\<close> and the rounded quotient
  \<open>p_removed / (n_prev - 1)\<close>. The witness is the example of the specification in
  binary64.
\<close>

theorem remove_redistributes_rounded:
  assumes "remove_obj rnd val index self \<sigma> = (Inr (), self', \<sigma>')"
    and "nums_ref self \<noteq> probs_ref self"
    and "nums_ref self < length (list_objs \<sigma>)" and "probs_ref self < length (list_objs \<sigma>)"
    and "length (list_objs \<sigma> ! probs_ref self) = length (list_objs \<sigma> ! nums_ref self)"
    and "distinct (map num_val (list_objs \<sigma> ! nums_ref self))"
  shows "\<exists>j < length (list_objs \<sigma> ! nums_ref self). 2 \<le> length (list_objs \<sigma> ! nums_ref self)
           \<and> (case val of Some v \<Rightarrow> py_eq (list_objs \<sigma> ! nums_ref self ! j) v
               | None \<Rightarrow> (case index of
                            Some i \<Rightarrow> norm_index i (length (list_objs \<sigma> ! nums_ref self)) = Some j
                          | None \<Rightarrow> False))
           \<and> list_objs \<sigma>' ! nums_ref self' = delete_at j (list_objs \<sigma> ! nums_ref self)
           \<and> list_objs \<sigma>' ! probs_ref self'
               = map (\<lambda>q. PFloat (rnd (num_val q
                       + rnd (num_val (list_objs \<sigma> ! probs_ref self ! j)
                              / of_nat (length (list_objs \<sigma> ! nums_ref self) - 1)))))
                   (delete_at j (list_objs \<sigma> ! probs_ref self))"
proof -
  let ?nums = "list_objs \<sigma> ! nums_ref self"
  from remove_obj_success [OF assms(1-5)] obtain j k where
    j: "j < length ?nums" and n2: "2 \<le> length ?nums"
    and k: "py_index (?nums ! j) ?nums = Some k"
    and sel: "(\<exists>i. val = None \<and> index = Some i \<and> norm_index i (length ?nums) = Some j)
               \<or> (\<exists>v. val = Some v \<and> index = None \<and> py_index v ?nums = Some j \<and> k = j)"
    and rest: "list_objs \<sigma>' ! nums_ref self' = delete_at k ?nums"
      "list_objs \<sigma>' ! probs_ref self'
               = map (\<lambda>q. PFloat (rnd (num_val q
                       + rnd (num_val (list_objs \<sigma> ! probs_ref self ! j)
                              / of_nat (length ?nums - 1)))))
                   (delete_at j (list_objs \<sigma> ! probs_ref self))"
    by blast
  have "py_index (?nums ! j) ?nums = Some j"
    using py_index_distinct [OF assms(6) j] by (simp add: py_eq_def)
  with k have kj: "k = j" by simp
  have "case val of Some v \<Rightarrow> py_eq (?nums ! j) v
               | None \<Rightarrow> (case index of Some i \<Rightarrow> norm_index i (length ?nums) = Some j
                          | None \<Rightarrow> False)"
    using sel py_index_Some by auto
  with j n2 rest kj show ?thesis by auto
qed

theorem remove_redistributes_rounded_witness:
  "remove_obj b64_round (Some (PInt 0)) None demo_obj demo_store
     = (Inr (), snd (remove_obj b64_round (Some (PInt 0)) None demo_obj demo_store))
   \<and> nums_ref demo_obj \<noteq> probs_ref demo_obj
   \<and> nums_ref demo_obj < length (list_objs demo_store) \<and> probs_ref demo_obj < length (list_objs demo_store)
   \<and> length (list_objs demo_store ! probs_ref demo_obj) = length (list_objs demo_store ! nums_ref demo_obj)
   \<and> distinct (map num_val (list_objs demo_store ! nums_ref demo_obj))
   \<and> (\<exists>j < length (list_objs demo_store ! nums_ref demo_obj).
         py_eq (list_objs demo_store ! nums_ref demo_obj ! j) (PInt 0)
         \<and> [PInt (- 1), PInt 1] = delete_at j (list_objs demo_store ! nums_ref demo_obj)
         \<and> [PFloat (8106479329266892 / 18014398509481984), PFloat (b64_round (55 / 100))]
             = map (\<lambda>q. PFloat (b64_round (num_val q
                       + b64_round (num_val (list_objs demo_store ! probs_ref demo_obj ! j)
                              / of_nat (length (list_objs demo_store ! nums_ref demo_obj) - 1)))))
                 (delete_at j (list_objs demo_store ! probs_ref demo_obj)))"
proof -
  let ?r = "remove_obj b64_round (Some (PInt 0)) None demo_obj demo_store"
  have a: "?r = (Inr (), fst (snd ?r), snd (snd ?r))"
    using demo_obj_remove(1) by (metis prod.collapse)
  have b: "nums_ref demo_obj \<noteq> probs_ref demo_obj" by (simp add: demo_obj_def)
  have c: "nums_ref demo_obj < length (list_objs demo_store)"
    and d: "probs_ref demo_obj < length (list_objs demo_store)"
    and e: "length (list_objs demo_store ! probs_ref demo_obj)
            = length (list_objs demo_store ! nums_ref demo_obj)"
    and f: "distinct (map num_val (list_objs demo_store ! nums_ref demo_obj))"
    by (simp_all add: demo_obj_def demo_store_def)
  from remove_redistributes_rounded [OF a b c d e f] demo_obj_remove(2-4)
  have "\<exists>j < length (list_objs demo_store ! nums_ref demo_obj).
         py_eq (list_objs demo_store ! nums_ref demo_obj ! j) (PInt 0)
         \<and> [PInt (- 1), PInt 1] = delete_at j (list_objs demo_store ! nums_ref demo_obj)
         \<and> [PFloat (8106479329266892 / 18014398509481984), PFloat (b64_round (55 / 100))]
             = map (\<lambda>q. PFloat (b64_round (num_val q
                       + b64_round (num_val (list_objs demo_store ! probs_ref demo_obj ! j)
                              / of_nat (length (list_objs demo_store ! nums_ref demo_obj) - 1)))))
                 (delete_at j (list_objs demo_store ! probs_ref demo_obj))"
    by auto
  with a b c d e f show ?thesis by simp
qed

subsection \<open>C3: the state of the table after construction and after \<^verbatim>\<open>remove\<close>\<close>

text \<open>
  Claim C3 says that after every successful \<^verbatim>\<open>remove\<close> every probability lies in \<open>(0, 1]\<close>.
  The probabilities \<^verbatim>\<open>[1, 0.000005]\<close> pass the constructor, since their sum is 1 up to
  \<^verbatim>\<open>isclose\<close>, and removing the second outcome leaves the single probability \<^verbatim>\<open>1.000005\<close>:
  a table that the constructor itself rejects with \<^verbatim>\<open>Invalid probability\<close> (shown with the
  witness), as it rejects every probability above 1.
\<close>

theorem probability_bound_counterexample:
  "RandomGen_init (const_rng (1 / 2)) [PInt 1, PInt 2] (Some [1, 1 / 200000]) None None
     = Inr heavy_pair
   \<and> remove None (Some 1) heavy_pair = (Inr (), heavy_removed)
   \<and> probs heavy_removed = [200001 / 200000]
   \<and> \<not> list_all (\<lambda>p. 0 < p \<and> p \<le> 1) (probs heavy_removed)
   \<and> \<not> table_ok 1 heavy_removed"
  using heavy_pair_init heavy_remove by (simp add: heavy_removed_def table_ok_def)

theorem probability_bound_witness:
  "probs heavy_removed = [200001 / 200000]
   \<and> \<not> table_ok 1 heavy_removed
   \<and> RandomGen_init (const_rng (1 / 2)) (nums heavy_removed) (Some (probs heavy_removed)) None None
       = Inl InvalidProbabilityError"
  using probability_bound_counterexample
  by (simp add: RandomGen_init_def heavy_removed_def py_len_set_def)

subsection \<open>C4: probabilities of the wrong length\<close>

text \<open>
  Claim C4 as stated, for every values sequence and every supplied probabilities sequence
  of another length, is false at three inputs: no values with one probability fail with
  the error for empty input; the values \<^verbatim>\<open>[1, 1.0]\<close> with one probability fail with the error
  for repeated values; and the values \<^verbatim>\<open>[1, 2]\<close> with the empty list of probabilities
  construct a sampler with equal probabilities.
\<close>

theorem length_mismatch_counterexample:
  "RandomGen_init (const_rng (1 / 2)) [] (Some [1 / 2]) None None = Inl EmptyInputError
   \<and> RandomGen_init (const_rng (1 / 2)) [PInt 1, PFloat 1] (Some [1]) None None
       = Inl DuplicateValueError
   \<and> RandomGen_init (const_rng (1 / 2)) [PInt 1, PInt 2] (Some []) None None = Inr uniform_pair"
proof -
  have "RandomGen_init (const_rng (1 / 2)) [] (Some [1 / 2]) None None = Inl EmptyInputError"
    by (simp add: RandomGen_init_def)
  moreover have "RandomGen_init (const_rng (1 / 2)) [PInt 1, PFloat 1] (Some [1]) None None
       = Inl DuplicateValueError"
    by (simp add: RandomGen_init_def py_len_set_def)
  ultimately show ?thesis using uniform_pair_init by simp
qed

text \<open>
  Claim C4, amended. For every non-empty values sequence without repeated values and every
  non-empty probabilities sequence of another length, the constructor fails with
  \<^verbatim>\<open>ValueError("Inputs not compatible")\<close>.
\<close>

theorem length_mismatch_rejected:
  assumes "random_nums \<noteq> []" and "distinct (map num_val random_nums)"
    and "ps \<noteq> []" and "length ps \<noteq> length random_nums"
  shows "RandomGen_init fresh random_nums (Some ps) seed rng_arg = Inl LengthMismatchError"
proof -
  from assms(2) have "py_len_set random_nums = length random_nums"
    by (simp add: py_len_set_def distinct_remdups_id)
  moreover from assms(3) obtain q qs where "ps = q # qs" by (cases ps) simp_all
  ultimately show ?thesis using assms(1,4) by (simp add: RandomGen_init_def)
qed

theorem length_mismatch_rejected_witness:
  "[PInt (- 1), PInt 0, PInt 1] \<noteq> [] \<and> distinct (map num_val [PInt (- 1), PInt 0, PInt 1])
   \<and> [1 / 10, 1 / 10 :: rat] \<noteq> []
   \<and> length [1 / 10, 1 / 10 :: rat] \<noteq> length [PInt (- 1), PInt 0, PInt 1]
   \<and> RandomGen_init (const_rng (1 / 2)) [PInt (- 1), PInt 0, PInt 1] (Some [1 / 10, 1 / 10])
         None None = Inl LengthMismatchError"
proof -
  have a: "[PInt (- 1), PInt 0, PInt 1] \<noteq> []" by simp
  have b: "distinct (map num_val [PInt (- 1), PInt 0, PInt 1])" by simp
  have c: "[1 / 10, 1 / 10 :: rat] \<noteq> []" by simp
  have d: "length [1 / 10, 1 / 10 :: rat] \<noteq> length [PInt (- 1), PInt 0, PInt 1]" by simp
  show ?thesis
    using a b c d length_mismatch_rejected [OF a b c d, of "const_rng (1 / 2)" None None]
    by blast
qed

subsection \<open>C5: a failed \<^verbatim>\<open>remove\<close> changes nothing\<close>

text \<open>
  Claim C5 as stated is false when the values and the probabilities of the sampler are one
  list object. After \<^verbatim>\<open>x = [0.25, 0.75]\<close> the call \<^verbatim>\<open>RandomGen(x, x)\<close> succeeds, and
  \<^verbatim>\<open>remove(index=0)\<close> pops \<^verbatim>\<open>0.25\<close> from the list, then does not find the value \<^verbatim>\<open>0.25\<close> in it
  and raises \<^verbatim>\<open>ValueError\<close>: the list is left as \<^verbatim>\<open>[0.75]\<close> and the cdf as \<^verbatim>\<open>[0.25, 1]\<close>.
\<close>

theorem failed_remove_alias_counterexample:
  "init_obj b64_round (const_rng 0) 0 (Some 0) None (Some 0) alias_store
     = (Inr alias_obj, alias_store)
   \<and> nums_ref alias_obj = probs_ref alias_obj
   \<and> list_objs alias_store = [[PFloat (1 / 4), PFloat (3 / 4)]]
   \<and> fst (remove_obj b64_round None (Some 0) alias_obj alias_store) = Inl ListValueError
   \<and> list_objs (snd (snd (remove_obj b64_round None (Some 0) alias_obj alias_store)))
       = [[PFloat (3 / 4)]]
   \<and> cdf_arr (fst (snd (remove_obj b64_round None (Some 0) alias_obj alias_store))) = [1 / 4, 1]"
proof -
  have "fst (remove_obj b64_round None (Some 0) alias_obj alias_store) = Inl ListValueError"
    "list_objs (snd (snd (remove_obj b64_round None (Some 0) alias_obj alias_store)))
       = [[PFloat (3 / 4)]]"
    "cdf_arr (fst (snd (remove_obj b64_round None (Some 0) alias_obj alias_store))) = [1 / 4, 1]"
    by (simp_all add: remove_obj_def alias_store_def alias_obj_def py_getitem_def py_eq_def
        py_pop_def norm_index_def delete_at_def)
  moreover have "nums_ref alias_obj = probs_ref alias_obj"
    "list_objs alias_store = [[PFloat (1 / 4), PFloat (3 / 4)]]"
    by (simp_all add: alias_obj_def alias_store_def)
  ultimately show ?thesis using alias_obj_init by simp
qed

text \<open>
  Claim C5, amended. When the values and the probabilities are two list objects, every call
  of \<^verbatim>\<open>remove\<close> that raises leaves the sampler and the store as they were. For every sampler,
  a call of \<^verbatim>\<open>remove\<close> that raises one of the four errors of the claim (both or neither
  selector, a position out of range, an absent value, a single remaining outcome) leaves
  them as they were. The witness runs the four failures on separate lists and a position
  out of range on the shared list.
\<close>

theorem failed_remove_keeps_objects:
  "(nums_ref self \<noteq> probs_ref self \<and> fst (remove_obj rnd val index self \<sigma>) = Inl e
      \<longrightarrow> snd (remove_obj rnd val index self \<sigma>) = (self, \<sigma>))
   \<and> (fst (remove_obj rnd val index self \<sigma>) = Inl e \<and> selector_error e
      \<longrightarrow> snd (remove_obj rnd val index self \<sigma>) = (self, \<sigma>))"
proof (intro conjI impI)
  assume "nums_ref self \<noteq> probs_ref self \<and> fst (remove_obj rnd val index self \<sigma>) = Inl e"
  then show "snd (remove_obj rnd val index self \<sigma>) = (self, \<sigma>)"
    using remove_obj_separate [of self rnd val index \<sigma>] by auto
next
  assume a: "fst (remove_obj rnd val index self \<sigma>) = Inl e \<and> selector_error e"
  then have "e \<noteq> ListValueError"
    by (auto simp: selector_error_def IndexOutOfRangeError_def)
  with a show "snd (remove_obj rnd val index self \<sigma>) = (self, \<sigma>)"
    using remove_obj_early by blast
qed

theorem failed_remove_keeps_objects_witness:
  "nums_ref demo_obj \<noteq> probs_ref demo_obj
   \<and> fst (remove_obj b64_round None None demo_obj demo_store) = Inl AmbiguousSelectorError
   \<and> snd (remove_obj b64_round None None demo_obj demo_store) = (demo_obj, demo_store)
   \<and> fst (remove_obj b64_round (Some (PInt 0)) (Some 1) demo_obj demo_store)
       = Inl AmbiguousSelectorError
   \<and> snd (remove_obj b64_round (Some (PInt 0)) (Some 1) demo_obj demo_store)
       = (demo_obj, demo_store)
   \<and> fst (remove_obj b64_round None (Some 3) demo_obj demo_store)
       = Inl (IndexError ''Index 3 is out of the valid range for length 2.'')
   \<and> snd (remove_obj b64_round None (Some 3) demo_obj demo_store) = (demo_obj, demo_store)
   \<and> fst (remove_obj b64_round (Some (PInt 5)) None demo_obj demo_store) = Inl RaiseStrTypeError
   \<and> snd (remove_obj b64_round (Some (PInt 5)) None demo_obj demo_store) = (demo_obj, demo_store)
   \<and> fst (remove_obj b64_round None (Some 0) single_obj single_store) = Inl SingleElementError
   \<and> snd (remove_obj b64_round None (Some 0) single_obj single_store)
       = (single_obj, single_store)
   \<and> nums_ref alias_obj = probs_ref alias_obj
   \<and> fst (remove_obj b64_round None (Some 2) alias_obj alias_store)
       = Inl (IndexError ''Index 2 is out of the valid range for length 1.'')
   \<and> selector_error (IndexError ''Index 2 is out of the valid range for length 1.'')
   \<and> snd (remove_obj b64_round None (Some 2) alias_obj alias_store) = (alias_obj, alias_store)"
proof -
  note ev = remove_obj_def demo_obj_def demo_store_def single_obj_def single_store_def
    alias_obj_def alias_store_def py_getitem_def norm_index_def py_eq_def
    IndexOutOfRangeError_def str_int_def str_nat.simps digit_char_def
  have s: "nums_ref demo_obj \<noteq> probs_ref demo_obj" "nums_ref single_obj \<noteq> probs_ref single_obj"
    "nums_ref alias_obj = probs_ref alias_obj"
    by (simp_all add: demo_obj_def single_obj_def alias_obj_def)
  have a: "fst (remove_obj b64_round None None demo_obj demo_store) = Inl AmbiguousSelectorError"
    by (simp add: remove_obj_def)
  have b: "fst (remove_obj b64_round (Some (PInt 0)) (Some 1) demo_obj demo_store)
       = Inl AmbiguousSelectorError"
    by (simp add: remove_obj_def)
  have c: "fst (remove_obj b64_round None (Some 3) demo_obj demo_store)
       = Inl (IndexError ''Index 3 is out of the valid range for length 2.'')"
    by (simp add: ev)
  have d: "fst (remove_obj b64_round (Some (PInt 5)) None demo_obj demo_store)
       = Inl RaiseStrTypeError"
    by (simp add: ev)
  have e: "fst (remove_obj b64_round None (Some 0) single_obj single_store)
       = Inl SingleElementError"
    by (simp add: ev)
  have f: "fst (remove_obj b64_round None (Some 2) alias_obj alias_store)
       = Inl (IndexError ''Index 2 is out of the valid range for length 1.'')"
    by (simp add: ev)
  have g: "selector_error (IndexError ''Index 2 is out of the valid range for length 1.'')"
  proof -
    have "IndexError ''Index 2 is out of the valid range for length 1.''
          = IndexOutOfRangeError 2 2"
      by (simp add: IndexOutOfRangeError_def str_int_def str_nat.simps digit_char_def)
    then show ?thesis unfolding selector_error_def by blast
  qed
  note t = failed_remove_keeps_objects
  from t [of demo_obj b64_round None None demo_store AmbiguousSelectorError] s(1) a
  have a': "snd (remove_obj b64_round None None demo_obj demo_store) = (demo_obj, demo_store)"
    by blast
  from t [of demo_obj b64_round "Some (PInt 0)" "Some 1" demo_store AmbiguousSelectorError] s(1) b
  have b': "snd (remove_obj b64_round (Some (PInt 0)) (Some 1) demo_obj demo_store)
       = (demo_obj, demo_store)"
    by blast
  from t [of demo_obj b64_round None "Some 3" demo_store
      "IndexError ''Index 3 is out of the valid range for length 2.''"] s(1) c
  have c': "snd (remove_obj b64_round None (Some 3) demo_obj demo_store) = (demo_obj, demo_store)"
    by blast
  from t [of demo_obj b64_round "Some (PInt 5)" None demo_store RaiseStrTypeError] s(1) d
  have d': "snd (remove_obj b64_round (Some (PInt 5)) None demo_obj demo_store)
       = (demo_obj, demo_store)"
    by blast
  from t [of single_obj b64_round None "Some 0" single_store SingleElementError] s(2) e
  have e': "snd (remove_obj b64_round None (Some 0) single_obj single_store)
       = (single_obj, single_store)"
    by blast
  from t [of alias_obj b64_round None "Some 2" alias_store
      "IndexError ''Index 2 is out of the valid range for length 1.''"] f g
  have f': "snd (remove_obj b64_round None (Some 2) alias_obj alias_store)
       = (alias_obj, alias_store)"
    by blast
  from s a a' b b' c c' d d' e e' f g f' show ?thesis by blast
qed

subsection \<open>C6: removing a value that is not there\<close>

text \<open>
  Claim C6 says that \<^verbatim>\<open>remove(value=v)\<close> for an absent \<open>v\<close> fails with an error that reports
  the missing value. The statement \<^verbatim>\<open>raise "Passed value is not present ..."\<close> has a string
  for its operand, so what the caller receives is Python's \<^verbatim>\<open>TypeError\<close> about the \<^verbatim>\<open>raise\<close>
  statement itself. Here on the table \<^verbatim>\<open>[-1, 0, 1]\<close> and the value 5.
\<close>

theorem remove_absent_value_type_error:
  "reachable demo_table \<and> nums demo_table = [PInt (- 1), PInt 0, PInt 1]
   \<and> \<not> contains demo_table (PInt 5)
   \<and> remove (Some (PInt 5)) None demo_table = (Inl RaiseStrTypeError, demo_table)"
  using reachable_demo_table by (simp add: remove_def demo_table_def contains_def py_eq_def)

subsection \<open>C7: \<^verbatim>\<open>next_k_nums\<close> for a positive count\<close>

text \<open>
  Claim C7 says that for every table and every positive integer \<open>k\<close> the generator yields
  exactly \<open>k\<close> outcomes of the table. The probabilities \<^verbatim>\<open>[0.5, 0.499995]\<close> pass the
  constructor, since their sum is 1 up to \<^verbatim>\<open>isclose\<close>; the last element of the cdf is
  \<^verbatim>\<open>0.999995\<close>; at the uniform draw \<^verbatim>\<open>0.999999\<close> the binary search returns the index 2 and
  the subscript \<^verbatim>\<open>nums[2]\<close> raises: \<^verbatim>\<open>next_k_nums(1)\<close> yields nothing and ends with
  \<^verbatim>\<open>IndexError\<close>. (When no draw is above the last element of the cdf, the generator does
  yield \<open>k\<close> outcomes of the table: \<open>next_k_nums_complete\<close>.)
\<close>

theorem next_k_nums_index_error:
  "RandomGen_init (const_rng (999999 / 1000000)) [PInt 1, PInt 2] (Some [1 / 2, 99999 / 200000])
     None None = Inr short_pair
   \<and> fst (call_random (rng short_pair)) = 999999 / 1000000
   \<and> next_k_nums (PInt 1) short_pair = ([], Some ListIndexError, short_pair)"
  using short_pair_init short_pair_next
  by (simp add: next_k_nums_def) (simp add: short_pair_def call_random_def const_rng_def)

theorem next_k_nums_index_error_witness:
  "fst (RandomGen_next short_pair) = Inl ListIndexError
   \<and> fst (next_k_nums (PInt 1) short_pair) = []
   \<and> fst (snd (next_k_nums (PInt 1) short_pair)) = Some ListIndexError"
  using next_k_nums_index_error by (simp add: short_pair_next)

subsection \<open>C8: a count that is not a positive integer\<close>



subsection \<open>C9: the same seed gives the same draws\<close>

text \<open>
  Claim C9 as stated is false when the two samplers are given one random source: both keep
  the reference, and the draws of the first advance the source of the second. With the
  table \<^verbatim>\<open>[-1, 0, 1]\<close>, \<^verbatim>\<open>[0.3, 0.3, 0.4]\<close>, the seed 42 and one linear congruential source,
  the first sampler draws \<^verbatim>\<open>[-1, 0, 1]\<close> and the second then draws \<^verbatim>\<open>[0, -1, 1]\<close>.
\<close>

theorem shared_source_counterexample:
  "init_obj b64_round (lcg_rng 0) 0 (Some 1) (Some 42) (Some 0) (one_source 7)
     = (Inr (lcg_obj 0), one_source 42)
   \<and> init_obj b64_round (lcg_rng 0) 0 (Some 1) (Some 42) (Some 0) (one_source 42)
     = (Inr (lcg_obj 0), one_source 42)
   \<and> draw_seq_obj 3 (lcg_obj 0) (one_source 42)
     = ([Inr (PInt (- 1)), Inr (PInt 0), Inr (PInt 1)], one_source 26841)
   \<and> draw_seq_obj 3 (lcg_obj 0) (one_source 26841)
     = ([Inr (PInt 0), Inr (PInt (- 1)), Inr (PInt 1)], one_source 16092)
   \<and> [Inr (PInt (- 1)), Inr (PInt 0), Inr (PInt 1)]
       \<noteq> [Inr (PInt 0), Inr (PInt (- 1)), Inr (PInt 1) :: error + pynum]"
  using one_source_init [of 7] one_source_init [of 42] one_source_draws by simp

text \<open>
  Claim C9, amended. Two samplers are constructed one after the other with equal values,
  equal probabilities and the same seed \<open>s\<close>, which is not \<^verbatim>\<open>None\<close>. Each has a random
  source of its own; the two sources are of the same kind (the same \<^verbatim>\<open>random\<close> and \<^verbatim>\<open>seed\<close>
  methods), in any two states, and \<^verbatim>\<open>seed(s)\<close> determines the state of such a source, as it
  does for \<^verbatim>\<open>random.Random\<close>. Then for every \<open>m\<close> the \<open>m\<close> draws of one sampler are the
  \<open>m\<close> draws of the other, whether they draw from the same store or one after the other.
\<close>

theorem seed_determinism_own_sources:
  assumes a: "init_obj rnd fresh1 vals1 probs1 (Some s) rng1 \<sigma>0 = (Inr a, \<sigma>1)"
    and b: "init_obj rnd fresh2 vals2 probs2 (Some s) rng2 \<sigma>1 = (Inr b, \<sigma>2)"
    and own: "rng_ref a \<noteq> rng_ref b"
    and in_store: "vals1 < length (list_objs \<sigma>0)" "vals2 < length (list_objs \<sigma>0)"
      "case probs1 of None \<Rightarrow> True | Some p \<Rightarrow> p < length (list_objs \<sigma>0)"
      "case probs2 of None \<Rightarrow> True | Some p \<Rightarrow> p < length (list_objs \<sigma>0)"
      "case rng1 of None \<Rightarrow> True | Some r \<Rightarrow> r < length (rng_objs \<sigma>0)"
      "case rng2 of None \<Rightarrow> True | Some r \<Rightarrow> r < length (rng_objs \<sigma>0)"
    and same_values: "list_objs \<sigma>0 ! vals1 = list_objs \<sigma>0 ! vals2"
    and same_probabilities:
      "map_option (\<lambda>p. list_objs \<sigma>0 ! p) probs1 = map_option (\<lambda>p. list_objs \<sigma>0 ! p) probs2"
    and same_random:
      "rng_random (case rng1 of None \<Rightarrow> fresh1 | Some r \<Rightarrow> rng_objs \<sigma>0 ! r)
       = rng_random (case rng2 of None \<Rightarrow> fresh2 | Some r \<Rightarrow> rng_objs \<sigma>0 ! r)"
    and same_seed:
      "rng_seed (case rng1 of None \<Rightarrow> fresh1 | Some r \<Rightarrow> rng_objs \<sigma>0 ! r)
       = rng_seed (case rng2 of None \<Rightarrow> fresh2 | Some r \<Rightarrow> rng_objs \<sigma>0 ! r)"
    and resets:
      "\<forall>g g'. rng_seed (case rng1 of None \<Rightarrow> fresh1 | Some r \<Rightarrow> rng_objs \<sigma>0 ! r) s g
             = rng_seed (case rng1 of None \<Rightarrow> fresh1 | Some r \<Rightarrow> rng_objs \<sigma>0 ! r) s g'"
  shows "fst (draw_seq_obj m a \<sigma>2) = fst (draw_seq_obj m b \<sigma>2)
       \<and> fst (draw_seq_obj m b (snd (draw_seq_obj m a \<sigma>2))) = fst (draw_seq_obj m a \<sigma>2)
       \<and> fst (draw_seq_obj m a (snd (draw_seq_obj m b \<sigma>2))) = fst (draw_seq_obj m b \<sigma>2)"
proof -
  let ?A = "case rng1 of None \<Rightarrow> fresh1 | Some r \<Rightarrow> rng_objs \<sigma>0 ! r"
  let ?B = "case rng2 of None \<Rightarrow> fresh2 | Some r \<Rightarrow> rng_objs \<sigma>0 ! r"
  note sa = init_obj_success [OF a] and sb = init_obj_success [OF b]
  have seeded: "call_seed s ?A = call_seed s ?B"
  proof -
    have "rng_state (call_seed s ?A) = rng_state (call_seed s ?B)"
      using same_seed resets by (simp add: call_seed_def)
    then show ?thesis using same_random same_seed by (simp add: call_seed_def)
  qed
  have ra: "rng_ref a < length (rng_objs \<sigma>1)" and sa_src: "rng_objs \<sigma>1 ! rng_ref a = call_seed s ?A"
    and len1: "length (rng_objs \<sigma>0) \<le> length (rng_objs \<sigma>1)"
    and keep1: "\<And>r. r < length (rng_objs \<sigma>0) \<Longrightarrow> r \<noteq> rng_ref a
                  \<Longrightarrow> rng_objs \<sigma>1 ! r = rng_objs \<sigma>0 ! r"
    using sa in_store(5) by (cases rng1; auto simp: nth_append)+
  have rb: "rng_ref b < length (rng_objs \<sigma>2)"
    and len2: "length (rng_objs \<sigma>1) \<le> length (rng_objs \<sigma>2)"
    and keep2: "\<And>r. r < length (rng_objs \<sigma>1) \<Longrightarrow> r \<noteq> rng_ref b
                  \<Longrightarrow> rng_objs \<sigma>2 ! r = rng_objs \<sigma>1 ! r"
    using sb in_store(6) len1 by (cases rng2; auto simp: nth_append)+
  have sb_src: "rng_objs \<sigma>2 ! rng_ref b = call_seed s ?B"
  proof (cases rng2)
    case None
    with sb show ?thesis by (auto simp: nth_append)
  next
    case (Some r)
    with sb have r: "rng_ref b = r" by simp
    with Some in_store(6) have r0: "r < length (rng_objs \<sigma>0)" by simp
    with own r have "rng_objs \<sigma>1 ! r = rng_objs \<sigma>0 ! r" using keep1 by auto
    with Some sb r r0 len1 show ?thesis by auto
  qed
  have src: "rng_objs \<sigma>2 ! rng_ref a = rng_objs \<sigma>2 ! rng_ref b"
    using keep2 [OF ra own] sa_src sb_src seeded by simp
  have ra2: "rng_ref a < length (rng_objs \<sigma>2)" using ra len2 by simp
  have l1: "length (list_objs \<sigma>0) \<le> length (list_objs \<sigma>1)"
    and k1: "\<And>r. r < length (list_objs \<sigma>0) \<Longrightarrow> list_objs \<sigma>1 ! r = list_objs \<sigma>0 ! r"
    using sa by (auto simp: nth_append)
  have k2: "\<And>r. r < length (list_objs \<sigma>1) \<Longrightarrow> list_objs \<sigma>2 ! r = list_objs \<sigma>1 ! r"
    using sb by (auto simp: nth_append)
  have nums: "list_objs \<sigma>2 ! nums_ref a = list_objs \<sigma>2 ! nums_ref b"
    using sa sb in_store(1,2) same_values k1 k2 l1 by simp
  have pa: "list_objs \<sigma>1 ! probs_ref a = list_objs \<sigma>1 ! probs_ref a" by simp
  have cdf: "cdf_arr a = cdf_arr b"
  proof (cases probs1)
    case None
    with same_probabilities have "probs2 = None" by (cases probs2) simp_all
    with None sa sb in_store(1,2) same_values k1 show ?thesis by auto
  next
    case (Some p)
    with same_probabilities obtain q where q: "probs2 = Some q" "list_objs \<sigma>0 ! p = list_objs \<sigma>0 ! q"
      by (cases probs2) simp_all
    from Some q in_store(3,4) have pq: "p < length (list_objs \<sigma>0)" "q < length (list_objs \<sigma>0)"
      by simp_all
    with Some q sa sb in_store(1,2) same_values k1 show ?thesis by auto
  qed
  have v: "same_view a \<sigma>2 b \<sigma>2" using cdf nums src ra2 rb by (simp add: same_view_def)
  let ?\<sigma>a = "snd (draw_seq_obj m a \<sigma>2)" and ?\<sigma>b = "snd (draw_seq_obj m b \<sigma>2)"
  have "same_view b ?\<sigma>a a \<sigma>2"
    using v draw_seq_obj_frame [of m a \<sigma>2 "rng_ref b"] own by (simp add: same_view_def)
  moreover have "same_view a ?\<sigma>b b \<sigma>2"
    using v draw_seq_obj_frame [of m b \<sigma>2 "rng_ref a"] own by (simp add: same_view_def)
  ultimately show ?thesis using v draw_seq_obj_same_view by blast
qed

theorem seed_determinism_own_sources_witness:
  "init_obj b64_round (lcg_rng 0) 0 (Some 1) (Some 42) (Some 0) (two_sources 7 99)
     = (Inr (lcg_obj 0), two_sources 42 99)
   \<and> init_obj b64_round (lcg_rng 0) 0 (Some 1) (Some 42) (Some 1) (two_sources 42 99)
     = (Inr (lcg_obj 1), two_sources 42 42)
   \<and> rng_ref (lcg_obj 0) \<noteq> rng_ref (lcg_obj 1)
   \<and> 0 < length (list_objs (two_sources 7 99)) \<and> 1 < length (list_objs (two_sources 7 99))
   \<and> 0 < length (rng_objs (two_sources 7 99)) \<and> 1 < length (rng_objs (two_sources 7 99))
   \<and> rng_random (rng_objs (two_sources 7 99) ! 0) = rng_random (rng_objs (two_sources 7 99) ! 1)
   \<and> rng_seed (rng_objs (two_sources 7 99) ! 0) = rng_seed (rng_objs (two_sources 7 99) ! 1)
   \<and> (\<forall>g g'. rng_seed (rng_objs (two_sources 7 99) ! 0) 42 g
                = rng_seed (rng_objs (two_sources 7 99) ! 0) 42 g')
   \<and> draw_seq_obj 3 (lcg_obj 0) (two_sources 42 42)
       = ([Inr (PInt (- 1)), Inr (PInt 0), Inr (PInt 1)], two_sources 26841 42)
   \<and> fst (draw_seq_obj 3 (lcg_obj 1) (two_sources 26841 42))
       = [Inr (PInt (- 1)), Inr (PInt 0), Inr (PInt 1)]"
proof -
  let ?\<sigma> = "two_sources 7 99"
  have o: "rng_ref (lcg_obj 0) \<noteq> rng_ref (lcg_obj 1)" by (simp add: lcg_obj_def)
  have l: "0 < length (list_objs ?\<sigma>)" "1 < length (list_objs ?\<sigma>)"
    "0 < length (rng_objs ?\<sigma>)" "1 < length (rng_objs ?\<sigma>)"
    by (simp_all add: two_sources_def)
  have i: "(0::nat) < length (list_objs ?\<sigma>)" "(0::nat) < length (list_objs ?\<sigma>)"
    "case Some 1 of None \<Rightarrow> True | Some p \<Rightarrow> p < length (list_objs ?\<sigma>)"
    "case Some 1 of None \<Rightarrow> True | Some p \<Rightarrow> p < length (list_objs ?\<sigma>)"
    "case Some 0 of None \<Rightarrow> True | Some r \<Rightarrow> r < length (rng_objs ?\<sigma>)"
    "case Some 1 of None \<Rightarrow> True | Some r \<Rightarrow> r < length (rng_objs ?\<sigma>)"
    by (simp_all add: two_sources_def)
  have v: "list_objs ?\<sigma> ! 0 = list_objs ?\<sigma> ! 0"
    "map_option (\<lambda>p. list_objs ?\<sigma> ! p) (Some 1) = map_option (\<lambda>p. list_objs ?\<sigma> ! p) (Some 1)"
    by simp_all
  have k: "rng_random (rng_objs ?\<sigma> ! 0) = rng_random (rng_objs ?\<sigma> ! 1)"
    "rng_seed (rng_objs ?\<sigma> ! 0) = rng_seed (rng_objs ?\<sigma> ! 1)"
    "\<forall>g g'. rng_seed (rng_objs ?\<sigma> ! 0) 42 g = rng_seed (rng_objs ?\<sigma> ! 0) 42 g'"
    by (simp_all add: two_sources_def lcg_rng_def)
  have k': "rng_random (case Some 0 of None \<Rightarrow> lcg_rng 0 | Some r \<Rightarrow> rng_objs ?\<sigma> ! r)
       = rng_random (case Some 1 of None \<Rightarrow> lcg_rng 0 | Some r \<Rightarrow> rng_objs ?\<sigma> ! r)"
    "rng_seed (case Some 0 of None \<Rightarrow> lcg_rng 0 | Some r \<Rightarrow> rng_objs ?\<sigma> ! r)
       = rng_seed (case Some 1 of None \<Rightarrow> lcg_rng 0 | Some r \<Rightarrow> rng_objs ?\<sigma> ! r)"
    "\<forall>g g'. rng_seed (case Some 0 of None \<Rightarrow> lcg_rng 0 | Some r \<Rightarrow> rng_objs ?\<sigma> ! r) 42 g
             = rng_seed (case Some 0 of None \<Rightarrow> lcg_rng 0 | Some r \<Rightarrow> rng_objs ?\<sigma> ! r) 42 g'"
    using k by simp_all
  from seed_determinism_own_sources [OF two_sources_init(1) [of 7 99] two_sources_init(2) [of 42 99]
      o i v k', of 3]
  have "fst (draw_seq_obj 3 (lcg_obj 1) (snd (draw_seq_obj 3 (lcg_obj 0) (two_sources 42 42))))
        = fst (draw_seq_obj 3 (lcg_obj 0) (two_sources 42 42))"
    by blast
  then have "fst (draw_seq_obj 3 (lcg_obj 1) (two_sources 26841 42))
       = [Inr (PInt (- 1)), Inr (PInt 0), Inr (PInt 1)]"
    by (simp add: two_sources_draws)
  with o l k two_sources_init(1) [of 7 99] two_sources_init(2) [of 42 99] two_sources_draws [of 42]
  show ?thesis by simp
qed

subsection \<open>C10: numeric equality across subtypes\<close>

text \<open>
  Claim C10. Duplicate detection and the membership test compare numbers by value,
  whatever their subtypes: constructing a sampler on the values \<^verbatim>\<open>[1, 1.0]\<close> fails with the
  error for repeated values, with any probabilities, seed and random source; and for
  every table, \<^verbatim>\<open>v in sampler\<close> is true whenever \<open>v\<close> is numerically equal to a stored
  value.
\<close>

theorem numeric_equality_across_subtypes:
  "RandomGen_init fresh [PInt 1, PFloat 1] probabilities seed rng_arg = Inl DuplicateValueError
   \<and> ((\<exists>u \<in> set (nums self). num_val u = num_val v) \<longrightarrow> contains self v)"
  by (simp add: RandomGen_init_def py_len_set_def contains_def py_in_iff py_eq_def)

theorem numeric_equality_across_subtypes_witness:
  "(\<exists>u \<in> set (nums demo_table). num_val u = num_val (PFloat 1)) \<and> contains demo_table (PFloat 1)
   \<and> PFloat 1 \<notin> set (nums demo_table)"
proof -
  have h: "\<exists>u \<in> set (nums demo_table). num_val u = num_val (PFloat 1)"
    by (simp add: demo_table_def)
  have "contains demo_table (PFloat 1)"
    using numeric_equality_across_subtypes [of "const_rng (1 / 2)" None None None demo_table "PFloat 1"] h
    by blast
  with h show ?thesis by (simp add: demo_table_def)
qed

end
